theory Spec2Isabelle
  imports Main "HOL-Library.Word"
begin

section \<open>JavaScript values that travel over the channel\<close>

text \<open>
  The data of a message is what the structured clone of \<^verbatim>\<open>postMessage\<close> can carry:
  primitives, arrays, plain objects and error objects. An object is the list of its
  properties; an error object has the \<^verbatim>\<open>name\<close>, \<^verbatim>\<open>message\<close>, \<^verbatim>\<open>stack\<close> and
  \<^verbatim>\<open>code\<close> the code reads. Values are immutable, so the channel hands over an equal copy.

  Numbers are the integers from \<open>- 2 ^ 53\<close> to \<open>2 ^ 53 - 1\<close> (ids and error codes are
  such numbers): a double holds each of them exactly and \<^verbatim>\<open>String\<close> prints each of them
  in decimal, without an exponent. They are kept as words of 54 bits, read as signed; the
  code compares, stores and prints numbers and does no arithmetic on them.
\<close>

type_synonym number = "54 word"

datatype jsval =
    JUndefined
  | JNull
  | JBool bool
  | JNum number
  | JStr string
  | JArr "jsval list"
  | JObj "(string \<times> jsval) list"
  | JError string string jsval jsval

text \<open>Truthiness, as \<^verbatim>\<open>!x\<close>, \<^verbatim>\<open>x ? a : b\<close> and \<^verbatim>\<open>x || y\<close> test it.\<close>

fun truthy :: "jsval \<Rightarrow> bool" where
  "truthy JUndefined = False"
| "truthy JNull = False"
| "truthy (JBool b) = b"
| "truthy (JNum n) = (n \<noteq> 0)"
| "truthy (JStr s) = (s \<noteq> [])"
| "truthy (JArr xs) = True"
| "truthy (JObj kv) = True"
| "truthy (JError n m st c) = True"

text \<open>
  Reading one of the properties \<^verbatim>\<open>message\<close>, \<^verbatim>\<open>stack\<close>, \<^verbatim>\<open>code\<close>
  (the only reads the code makes on a value it does not know): on \<^verbatim>\<open>undefined\<close> and
  \<^verbatim>\<open>null\<close> the read throws a TypeError (\<open>None\<close>); a primitive or an array has no such
  property; an object gives its own, or \<^verbatim>\<open>undefined\<close>.
\<close>

fun get_prop :: "jsval \<Rightarrow> string \<Rightarrow> jsval option" where
  "get_prop JUndefined k = None"
| "get_prop JNull k = None"
| "get_prop (JObj kv) k = Some (case map_of kv k of None \<Rightarrow> JUndefined | Some v \<Rightarrow> v)"
| "get_prop (JError n m st c) k =
     Some (if k = ''message'' then JStr m
           else if k = ''stack'' then st
           else if k = ''code'' then c
           else if k = ''name'' then JStr n
           else JUndefined)"
| "get_prop v k = Some JUndefined"

text \<open>Decimal digits of a number, for \<^verbatim>\<open>String(n)\<close>.\<close>

fun digits :: "nat \<Rightarrow> string" where
  "digits n = (if n < 10 then [char_of (48 + n)] else digits (n div 10) @ [char_of (48 + n mod 10)])"

declare digits.simps [simp del]

definition show_int :: "int \<Rightarrow> string" where
  "show_int i = (if i < 0 then CHR ''-'' # digits (nat (- i)) else digits (nat i))"

fun join :: "string list \<Rightarrow> string" where
  "join [] = []"
| "join [s] = s"
| "join (s # t # ss) = s @ CHR '','' # join (t # ss)"

text \<open>
  \<^verbatim>\<open>String(v)\<close>, which \<^verbatim>\<open>new Error(v)\<close> applies to its argument: an array joins
  its elements with commas (an \<^verbatim>\<open>undefined\<close> or \<^verbatim>\<open>null\<close> element is empty), a
  plain object is \<^verbatim>\<open>[object Object]\<close>, and an error object is its name, its message, or
  \<^verbatim>\<open>name: message\<close> when it has both.
\<close>

fun to_string :: "jsval \<Rightarrow> string" where
  "to_string JUndefined = ''undefined''"
| "to_string JNull = ''null''"
| "to_string (JBool b) = (if b then ''true'' else ''false'')"
| "to_string (JNum n) = show_int (sint n)"
| "to_string (JStr s) = s"
| "to_string (JArr xs) =
     join (map (\<lambda>x. if x = JUndefined \<or> x = JNull then [] else to_string x) xs)"
| "to_string (JObj kv) = ''[object Object]''"
| "to_string (JError n m st c) = (if n = [] then m else if m = [] then n else n @ '': '' @ m)"

text \<open>
  \<^verbatim>\<open>new Error(message)\<close> followed by the assignments of \<^verbatim>\<open>code\<close> and
  \<^verbatim>\<open>stack\<close>: the message is empty when the argument is \<^verbatim>\<open>undefined\<close>, its
  string otherwise.
\<close>

definition new_Error :: "jsval \<Rightarrow> jsval \<Rightarrow> jsval \<Rightarrow> jsval" where
  "new_Error message stack code =
     JError ''Error'' (if message = JUndefined then [] else to_string message) stack code"

section \<open>Messages\<close>

text \<open>
  The object a request or a reply carries. Both forms are one record of the six properties
  the handlers read; a property the sender left out reads as \<^verbatim>\<open>undefined\<close> (on data
  that is a number, a string or a boolean every one of them does). The arguments are an
  array or absent, as the JSDoc of \<^verbatim>\<open>_invoke\<close> types them.
\<close>

record wire =
  command :: jsval
  interfaceName :: jsval
  args :: "jsval list option"
  msg_id :: jsval
  status :: jsval
  result :: jsval

type_synonym window = nat

text \<open>
  A message event: the window that sent it (the handlers are written for messages between
  windows, whose events carry one), the origin of that window, and the data, which is
  \<open>None\<close> when the sender posted \<^verbatim>\<open>null\<close> or \<^verbatim>\<open>undefined\<close> (every property
  read on it throws).
\<close>

record message =
  source :: window
  origin :: string
  data :: "wire option"

section \<open>The Server Dispatcher\<close>

text \<open>
  An argument of a dispatched call: a value of the message, or the object
  \<^verbatim>\<open>{ callingWindow: message.source, callingOrigin: message.origin }\<close> the dispatcher
  builds when access control is on (it holds a window, so it is not a value of the channel).
\<close>

datatype call_arg =
    Identity (callingWindow: window) (callingOrigin: string)
  | Plain jsval

text \<open>
  What a method of the service does when it is called: it returns a plain value, it throws,
  or it returns a promise, which is fulfilled, is rejected, or never settles.
\<close>

datatype settle = Fulfils jsval | Rejects jsval | Forever

datatype outcome = Returns jsval | Throws jsval | Promised settle

text \<open>The optional \<^verbatim>\<open>onConnected\<close> of the service: absent, or called, and then it may throw.\<close>

datatype hook = Absent | Runs | Raises jsval

text \<open>
  The dispatcher: its \<^verbatim>\<open>_name\<close>, the whitelist \<^verbatim>\<open>_rpcInterface\<close>, the flag
  \<^verbatim>\<open>useAccessControl\<close>, and \<open>members\<close>, what \<^verbatim>\<open>this[command]\<close> finds on the
  instance for a name other than \<^verbatim>\<open>getRpcInterface\<close> (\<open>None\<close> when nothing callable
  is there). \<open>here\<close> is the stack trace the engine records in an error created inside the
  dispatcher.
\<close>

record server =
  srv_name :: string
  rpcInterface :: "string list"
  useAccessControl :: bool
  members :: "string \<Rightarrow> (call_arg list \<Rightarrow> outcome) option"
  onConnected :: hook
  here :: jsval

text \<open>
  What the dispatcher does to the world while it handles one message, in order: a method of
  the service is entered with its arguments, the hook is called, a message is posted to a
  window with a target origin. \<^verbatim>\<open>postMessage\<close> belongs to the channel; on the values
  above it is taken to accept the message.
\<close>

datatype effect =
    Invoked string "call_arg list"
  | HookCalled
  | Posted window wire string

fun is_Invoked :: "effect \<Rightarrow> bool" where
  "is_Invoked (Invoked c as) = True"
| "is_Invoked e = False"

text \<open>The TypeError of a property read on \<^verbatim>\<open>undefined\<close> or \<^verbatim>\<open>null\<close>.\<close>

definition type_error :: "jsval \<Rightarrow> jsval" where
  "type_error stack = JError ''TypeError'' ''Cannot read properties of undefined'' stack JUndefined"

text \<open>
  \<^verbatim>\<open>_replyTo(message, status, result)\<close>: one message to the source of the request, with
  the origin of the request as target origin. Reading \<^verbatim>\<open>message.data.id\<close> throws when
  the request has no data.
\<close>

definition replyTo :: "server \<Rightarrow> message \<Rightarrow> string \<Rightarrow> jsval \<Rightarrow> jsval + effect" where
  "replyTo s m st res =
     (case data m of
        None \<Rightarrow> Inl (type_error (here s))
      | Some d \<Rightarrow>
          Inr (Posted (source m)
                 \<lparr>command = JUndefined, interfaceName = JStr (srv_name s), args = None,
                  msg_id = msg_id d, status = JStr st, result = res\<rparr>
                 (origin m)))"

text \<open>
  \<^verbatim>\<open>e.message ? { message: e.message, stack: e.stack, code: e.code } : { message: e }\<close>;
  \<open>None\<close> when reading \<^verbatim>\<open>e.message\<close> throws.
\<close>

definition error_payload :: "jsval \<Rightarrow> jsval option" where
  "error_payload e =
     (case get_prop e ''message'' of
        None \<Rightarrow> None
      | Some m \<Rightarrow>
          if truthy m
          then Some (JObj [(''message'', m),
                           (''stack'', case get_prop e ''stack'' of None \<Rightarrow> JUndefined | Some v \<Rightarrow> v),
                           (''code'', case get_prop e ''code'' of None \<Rightarrow> JUndefined | Some v \<Rightarrow> v)])
          else Some (JObj [(''message'', e)]))"

text \<open>
  The two \<^verbatim>\<open>catch\<close> handlers (they are the same): reply with status error. The result
  is the effects and the exception that leaves the handler, if one does.
\<close>

definition reply_error :: "server \<Rightarrow> message \<Rightarrow> jsval \<Rightarrow> effect list \<times> jsval option" where
  "reply_error s m e =
     (case error_payload e of
        None \<Rightarrow> ([], Some (type_error (here s)))
      | Some p \<Rightarrow>
          (case replyTo s m ''error'' p of
             Inl x \<Rightarrow> ([], Some x)
           | Inr eff \<Rightarrow> ([eff], None)))"

text \<open>
  A reply with status OK, from inside the \<^verbatim>\<open>try\<close> or the \<^verbatim>\<open>then\<close>: what it
  throws goes to the \<^verbatim>\<open>catch\<close>.
\<close>

definition reply_ok :: "server \<Rightarrow> message \<Rightarrow> jsval \<Rightarrow> effect list \<times> jsval option" where
  "reply_ok s m v =
     (case replyTo s m ''OK'' v of
        Inl x \<Rightarrow> reply_error s m x
      | Inr eff \<Rightarrow> ([eff], None))"

text \<open>
  The method the constructor installs as \<^verbatim>\<open>getRpcInterface\<close>: it calls the hook when
  there is one and returns the whitelist.
\<close>

definition getRpcInterface :: "server \<Rightarrow> effect list \<times> outcome" where
  "getRpcInterface s =
     (case onConnected s of
        Absent \<Rightarrow> ([], Returns (JArr (map JStr (rpcInterface s))))
      | Runs \<Rightarrow> ([HookCalled], Returns (JArr (map JStr (rpcInterface s))))
      | Raises e \<Rightarrow> ([HookCalled], Throws e))"

text \<open>
  \<^verbatim>\<open>_invoke(command, args)\<close>, that is \<^verbatim>\<open>this[command].apply(this, args)\<close>: a
  TypeError when there is nothing to apply.
\<close>

definition invoke :: "server \<Rightarrow> string \<Rightarrow> call_arg list \<Rightarrow> effect list \<times> outcome" where
  "invoke s c as =
     (if c = ''getRpcInterface''
      then (case getRpcInterface s of (effs, out) \<Rightarrow> (Invoked c as # effs, out))
      else (case members s c of
              None \<Rightarrow> ([], Throws (type_error (here s)))
            | Some f \<Rightarrow> ([Invoked c as], f as)))"

text \<open>The arguments of the call: \<^verbatim>\<open>message.data.args || []\<close>, with the identity first
  when access control is on and the command is not the handshake.\<close>

definition call_args :: "server \<Rightarrow> message \<Rightarrow> wire \<Rightarrow> call_arg list" where
  "call_args s m d =
     (let as = (case args d of None \<Rightarrow> [] | Some xs \<Rightarrow> xs)
      in if useAccessControl s \<and> command d \<noteq> JStr ''getRpcInterface''
         then Identity (source m) (origin m) # map Plain as
         else map Plain as)"

text \<open>
  What \<^verbatim>\<open>_receive\<close> does with the outcome of the call: a plain value is sent with status
  OK; what the call throws goes to the \<^verbatim>\<open>catch\<close>; a promise is answered when it
  settles, with status OK or through its \<^verbatim>\<open>catch\<close>, and not at all when it never
  settles.
\<close>

definition conclude :: "server \<Rightarrow> message \<Rightarrow> outcome \<Rightarrow> effect list \<times> jsval option" where
  "conclude s m out =
     (case out of
        Throws e \<Rightarrow> reply_error s m e
      | Returns v \<Rightarrow> reply_ok s m v
      | Promised (Fulfils v) \<Rightarrow> reply_ok s m v
      | Promised (Rejects e) \<Rightarrow> reply_error s m e
      | Promised Forever \<Rightarrow> ([], None))"

text \<open>The rest of \<^verbatim>\<open>_receive\<close> once the command \<open>c\<close> has passed the whitelist.\<close>

definition dispatch :: "server \<Rightarrow> message \<Rightarrow> wire \<Rightarrow> string \<Rightarrow> effect list \<times> jsval option" where
  "dispatch s m d c =
     (case invoke s c (call_args s m d) of
        (effs, out) \<Rightarrow>
          (case conclude s m out of
             (effs', x) \<Rightarrow> (effs @ effs', x)))"

text \<open>
  \<^verbatim>\<open>_rpcInterface.includes(command)\<close>: the whitelist holds strings, so only a string
  can be found in it.
\<close>

definition whitelisted :: "string list \<Rightarrow> jsval \<Rightarrow> bool" where
  "whitelisted whitelist v = (case v of JStr c \<Rightarrow> c \<in> set whitelist | _ \<Rightarrow> False)"

definition unknown_command :: "server \<Rightarrow> jsval" where
  "unknown_command s = JError ''Error'' ''Unknown command'' (here s) JUndefined"

text \<open>
  \<^verbatim>\<open>Server._receive(message)\<close>: the read of \<^verbatim>\<open>message.data.interfaceName\<close> throws
  inside the \<^verbatim>\<open>try\<close> when there is no data; a message for another interface returns at
  once; a command outside the whitelist throws the error \<^verbatim>\<open>Unknown command\<close>.
\<close>

definition server_receive :: "server \<Rightarrow> message \<Rightarrow> effect list \<times> jsval option" where
  "server_receive s m =
     (case data m of
        None \<Rightarrow> reply_error s m (type_error (here s))
      | Some d \<Rightarrow>
          if interfaceName d \<noteq> JStr (srv_name s) then ([], None)
          else if \<not> whitelisted (rpcInterface s) (command d) then reply_error s m (unknown_command s)
          else dispatch s m d (to_string (command d)))"

subsection \<open>Construction of the dispatcher\<close>

text \<open>
  The class a dispatcher wraps: its name, what \<^verbatim>\<open>Reflection.userFunctions\<close> lists for its
  prototype (the reflection utility is a collaborator, so its answer is given), its hook, and
  its callable members as an instance of the subclass \<^verbatim>\<open>Server\<close> finds them (the subclass
  has \<^verbatim>\<open>close\<close>, \<^verbatim>\<open>_replyTo\<close>, \<^verbatim>\<open>_receive\<close> and \<^verbatim>\<open>_invoke\<close> of its own,
  which hide members of the class with these names). \<open>engine_stack\<close> is the stack trace
  the engine records in an error created inside the dispatcher.
\<close>

record service =
  class_name :: string
  userFunctions :: "string list"
  methods :: "string \<Rightarrow> (call_arg list \<Rightarrow> outcome) option"
  connect_hook :: hook
  engine_stack :: jsval

text \<open>The loop that pushes every reflected name onto the empty list.\<close>

fun push_all :: "string list \<Rightarrow> string list \<Rightarrow> string list" where
  "push_all acc [] = acc"
| "push_all acc (functionName # rest) = push_all (acc @ [functionName]) rest"

text \<open>
  The whitelist \<^verbatim>\<open>_Server\<close> stores: the explicit list when one is given
  (\<^verbatim>\<open>rpcInterface !== undefined\<close>), the reflected names otherwise, and then
  \<^verbatim>\<open>push('getRpcInterface')\<close>.
\<close>

definition Server_rpcInterface :: "service \<Rightarrow> string list option \<Rightarrow> string list" where
  "Server_rpcInterface clazz explicit =
     (case explicit of
        Some whitelist \<Rightarrow> whitelist
      | None \<Rightarrow> push_all [] (userFunctions clazz)) @ [''getRpcInterface'']"

definition RPC_Server :: "service \<Rightarrow> bool \<Rightarrow> string list option \<Rightarrow> server" where
  "RPC_Server clazz acl explicit =
     \<lparr>srv_name = class_name clazz,
      rpcInterface = Server_rpcInterface clazz explicit,
      useAccessControl = acl,
      members = methods clazz,
      onConnected = connect_hook clazz,
      here = engine_stack clazz\<rparr>"

subsection \<open>The subscription of the dispatcher\<close>

text \<open>
  The global object the listeners are registered on. A listener is a function object:
  \<open>next_fn\<close> numbers the function objects created so far, so that two results of
  \<^verbatim>\<open>bind\<close> are never the same object. \<^verbatim>\<open>addEventListener\<close> ignores a function
  that is registered already; \<^verbatim>\<open>removeEventListener\<close> removes the function it is given
  and nothing else.
\<close>

record 'h event_target =
  next_fn :: nat
  listeners :: "(nat \<times> 'h) list"

definition addEventListener :: "'h event_target \<Rightarrow> nat \<times> 'h \<Rightarrow> 'h event_target" where
  "addEventListener et f =
     (if fst f \<in> fst ` set (listeners et) then et
      else et\<lparr>listeners := listeners et @ [f]\<rparr>)"

definition removeEventListener :: "'h event_target \<Rightarrow> nat \<Rightarrow> 'h event_target" where
  "removeEventListener et f = et\<lparr>listeners := filter (\<lambda>l. fst l \<noteq> f) (listeners et)\<rparr>"

text \<open>\<^verbatim>\<open>this._receive.bind(this)\<close>: a new function object that runs the handler of \<open>s\<close>.\<close>

definition bind_receive :: "server event_target \<Rightarrow> server \<Rightarrow> (nat \<times> server) \<times> server event_target" where
  "bind_receive et s = ((next_fn et, s), et\<lparr>next_fn := Suc (next_fn et)\<rparr>)"

text \<open>The constructor registers a bound handler; \<^verbatim>\<open>close\<close> binds again and removes
  what it has just bound.\<close>

definition Server_new :: "server event_target \<Rightarrow> server \<Rightarrow> server event_target" where
  "Server_new et s = (case bind_receive et s of (f, et') \<Rightarrow> addEventListener et' f)"

definition Server_close :: "server event_target \<Rightarrow> server \<Rightarrow> server event_target" where
  "Server_close et s = (case bind_receive et s of (f, et') \<Rightarrow> removeEventListener et' (fst f))"

text \<open>A message event on the global object runs every registered handler, in order.\<close>

definition on_message :: "server event_target \<Rightarrow> message \<Rightarrow> (effect list \<times> jsval option) list" where
  "on_message et m = map (\<lambda>l. server_receive (snd l) m) (listeners et)"

text \<open>The listeners are function objects that exist: numbered below \<open>next_fn\<close>.\<close>

definition bound_fns :: "'h event_target \<Rightarrow> bool" where
  "bound_fns et = list_all (\<lambda>l. fst l < next_fn et) (listeners et)"

section \<open>The Client Proxy\<close>

text \<open>The promise of one call: pending, resolved with a value, or rejected with an error.\<close>

datatype pstate = Pending | Fulfilled jsval | Rejected jsval

text \<open>
  The proxy and what it has done. \<open>availableMethods\<close> is the result of the handshake and
  \<open>stubs\<close> the names a stub was attached for; \<open>proxyInterface\<close> is the
  \<^verbatim>\<open>interfaceName\<close> of the enclosing call. \<open>waiting\<close> is the table \<^verbatim>\<open>_waiting\<close>:
  it maps an id to the promise whose \<^verbatim>\<open>resolve\<close> and \<^verbatim>\<open>error\<close> it holds, a
  promise being its index in \<open>promises\<close>, the promises \<^verbatim>\<open>_invoke\<close> has returned.
  \<open>listening\<close> says whether \<^verbatim>\<open>_receive\<close> is registered; \<open>posted\<close>, \<open>console\<close> and
  \<open>uncaught\<close> record the messages posted, the replies logged as unknown and the
  exceptions that left the handler. \<open>trace\<close> is the stack trace the engine records in an
  error created inside the proxy.
\<close>

record client =
  availableMethods :: jsval
  stubs :: "string list"
  targetWindow :: window
  targetOrigin :: string
  proxyInterface :: string
  trace :: jsval
  waiting :: "number \<rightharpoonup> nat"
  promises :: "pstate list"
  listening :: bool
  posted :: "(window \<times> wire \<times> string) list"
  console :: "wire list"
  uncaught :: "jsval list"

text \<open>
  The names the proxy itself owns. The loop that attaches the stubs assigns
  \<^verbatim>\<open>Client.prototype[functionName]\<close> for every name of the handshake, so a whitelist with
  one of these names would replace \<^verbatim>\<open>_invoke\<close> or \<^verbatim>\<open>_receive\<close>, or attach a stub
  that a property of the instance hides: with \<^verbatim>\<open>_receive\<close> among the names the handler
  the constructor registers is a stub, and no reply is processed; with \<^verbatim>\<open>_invoke\<close>
  among them every stub calls itself without end. The proxy below is the one of a whitelist
  without these names: its stubs call \<^verbatim>\<open>_invoke\<close> and its handler is
  \<^verbatim>\<open>_receive\<close>. Every theorem about the steps of a proxy assumes such a whitelist.
\<close>

definition proxy_members :: "string list" where
  "proxy_members =
     [''_invoke'', ''_receive'', ''availableMethods'', ''_targetWindow'', ''_targetOrigin'', ''_waiting'']"

text \<open>What \<^verbatim>\<open>for (const functionName of functionNames)\<close> runs over: the elements of an
  array, the characters of a string; anything else is not iterable (\<open>None\<close>).\<close>

fun iterate :: "jsval \<Rightarrow> jsval list option" where
  "iterate (JArr xs) = Some xs"
| "iterate (JStr s) = Some (map (\<lambda>ch. JStr [ch]) s)"
| "iterate v = None"

text \<open>
  \<^verbatim>\<open>new (RPC._Client(targetWindow, targetOrigin, interfaceName, functionNames))()\<close>: the
  TypeError of the loop when the names cannot be iterated, else a proxy with an empty table
  whose handler is registered.
\<close>

definition Client_new :: "window \<Rightarrow> string \<Rightarrow> string \<Rightarrow> jsval \<Rightarrow> jsval \<Rightarrow> jsval + client" where
  "Client_new tw to iface functionNames stack =
     (case iterate functionNames of
        None \<Rightarrow> Inl (type_error stack)
      | Some names \<Rightarrow>
          Inr \<lparr>availableMethods = functionNames, stubs = map to_string names,
               targetWindow = tw, targetOrigin = to, proxyInterface = iface, trace = stack,
               waiting = Map.empty, promises = [], listening = True,
               posted = [], console = [], uncaught = []\<rparr>)"

text \<open>
  \<^verbatim>\<open>_invoke(command, args)\<close> with the id that \<^verbatim>\<open>Random.getRandomId()\<close> gives: a new
  promise, its entry in the table under the id (an entry already there is overwritten),
  and the request posted to the target window with target origin \<^verbatim>\<open>*\<close>.
\<close>

definition client_invoke :: "client \<Rightarrow> string \<Rightarrow> jsval list \<Rightarrow> number \<Rightarrow> client" where
  "client_invoke c cmd as rid =
     c\<lparr>promises := promises c @ [Pending],
       waiting := (waiting c)(rid \<mapsto> length (promises c)),
       posted := posted c @
         [(targetWindow c,
           \<lparr>command = JStr cmd, interfaceName = JStr (proxyInterface c), args = Some as,
            msg_id = JNum rid, status = JUndefined, result = JUndefined\<rparr>,
           ''*'')]\<rparr>"

text \<open>\<^verbatim>\<open>resolve\<close> and \<^verbatim>\<open>error\<close> of a promise: they settle it when it is pending and do
  nothing otherwise.\<close>

definition settle_promise :: "pstate list \<Rightarrow> nat \<Rightarrow> pstate \<Rightarrow> pstate list" where
  "settle_promise ps h st = (if h < length ps \<and> ps ! h = Pending then ps[h := st] else ps)"

text \<open>\<^verbatim>\<open>_waiting.get(id)\<close> and \<^verbatim>\<open>_waiting.delete(id)\<close>: the keys of the table are
  numbers, so another value finds nothing.\<close>

definition waiting_get :: "client \<Rightarrow> jsval \<Rightarrow> nat option" where
  "waiting_get c v = (case v of JNum n \<Rightarrow> waiting c n | _ \<Rightarrow> None)"

definition waiting_delete :: "client \<Rightarrow> jsval \<Rightarrow> (number \<rightharpoonup> nat)" where
  "waiting_delete c v = (case v of JNum n \<Rightarrow> (waiting c)(n := None) | _ \<Rightarrow> waiting c)"

text \<open>The filter at the head of \<^verbatim>\<open>Client._receive\<close>, for a message that has data.\<close>

definition passes_filter :: "client \<Rightarrow> message \<Rightarrow> wire \<Rightarrow> bool" where
  "passes_filter c ev d =
     (\<not> (source ev \<noteq> targetWindow c
         \<or> \<not> truthy (status d)
         \<or> interfaceName d \<noteq> JStr (proxyInterface c)
         \<or> (targetOrigin c \<noteq> ''*'' \<and> origin ev \<noteq> targetOrigin c)))"

text \<open>
  The branch of \<^verbatim>\<open>Client._receive\<close> that has found the callbacks of the reply, after
  the entry is deleted: status OK resolves with the result; status error takes the result
  apart (which throws when it is \<^verbatim>\<open>undefined\<close> or \<^verbatim>\<open>null\<close>), builds the error
  and rejects; any other status does nothing more.
\<close>

definition answer :: "client \<Rightarrow> nat \<Rightarrow> wire \<Rightarrow> client" where
  "answer c callback d =
     (if status d = JStr ''OK''
      then c\<lparr>promises := settle_promise (promises c) callback (Fulfilled (result d))\<rparr>
      else if status d = JStr ''error''
      then (case get_prop (result d) ''message'' of
              None \<Rightarrow> c\<lparr>uncaught := uncaught c @ [type_error (trace c)]\<rparr>
            | Some message \<Rightarrow>
                c\<lparr>promises := settle_promise (promises c) callback
                     (Rejected (new_Error message
                        (case get_prop (result d) ''stack'' of None \<Rightarrow> JUndefined | Some v \<Rightarrow> v)
                        (case get_prop (result d) ''code'' of None \<Rightarrow> JUndefined | Some v \<Rightarrow> v)))\<rparr>)
      else c)"

text \<open>
  \<^verbatim>\<open>Client._receive({ source, origin, data })\<close>. The source is compared first; the read of
  \<^verbatim>\<open>data.status\<close> throws when there is no data. A reply without an entry in the table
  is logged.
\<close>

definition client_receive :: "client \<Rightarrow> message \<Rightarrow> client" where
  "client_receive c ev =
     (if source ev \<noteq> targetWindow c then c
      else (case data ev of
              None \<Rightarrow> c\<lparr>uncaught := uncaught c @ [type_error (trace c)]\<rparr>
            | Some d \<Rightarrow>
                if \<not> passes_filter c ev d then c
                else (case waiting_get c (msg_id d) of
                        None \<Rightarrow> c\<lparr>console := console c @ [d]\<rparr>
                      | Some callback \<Rightarrow>
                          answer (c\<lparr>waiting := waiting_delete c (msg_id d)\<rparr>) callback d)))"

text \<open>
  What happens to a proxy whose whitelist names none of \<open>proxy_members\<close>: a stub is
  called (with the id the random generator gives to the call), a message event arrives,
  \<^verbatim>\<open>close\<close> is called. A name without a stub is not a function of the proxy, so that
  call does nothing to it; a message reaches the handler only while it is registered.
\<close>

datatype client_event =
    Call string "jsval list" number
  | Receive message
  | Close

fun client_step :: "client \<Rightarrow> client_event \<Rightarrow> client" where
  "client_step c (Call functionName as rid) =
     (if functionName \<in> set (stubs c) then client_invoke c functionName as rid else c)"
| "client_step c (Receive ev) = (if listening c then client_receive c ev else c)"
| "client_step c Close = c\<lparr>listening := False\<rparr>"

definition client_run :: "client \<Rightarrow> client_event list \<Rightarrow> client" where
  "client_run c evs = foldl client_step c evs"

section \<open>The Connector\<close>

text \<open>The promise \<^verbatim>\<open>RPC.Client\<close> returns, and the two callbacks it schedules.\<close>

datatype connection = Connecting | Established client | Failed jsval

datatype callback = TimeoutCb | TryToConnect

text \<open>
  The state of one call of \<^verbatim>\<open>RPC.Client(targetWindow, interfaceName, targetOrigin)\<close>:
  its arguments, the variables \<^verbatim>\<open>connected\<close>, \<^verbatim>\<open>connectTimer\<close> and
  \<^verbatim>\<open>timeoutTimer\<close>, whether \<^verbatim>\<open>interfaceListener\<close> is registered, the promise, and
  the timers that are scheduled and have neither run nor been cleared, each with its id, its
  callback and its delay in milliseconds. \<open>next_timer\<close> is the id the next
  \<^verbatim>\<open>setTimeout\<close> returns. \<open>handshakes\<close> are the messages posted, \<open>failures\<close> the
  lines logged for a \<^verbatim>\<open>postMessage\<close> that threw, and \<open>escaped\<close> the exceptions that
  left the listener; \<open>k_trace\<close> is the stack trace the engine records in an error created
  inside the call.
\<close>

record connector =
  k_targetWindow :: window
  k_interfaceName :: string
  k_targetOrigin :: string
  k_trace :: jsval
  connected :: bool
  subscribed :: bool
  promise :: connection
  connectTimer :: nat
  timeoutTimer :: nat
  timers :: "(nat \<times> callback \<times> nat) list"
  next_timer :: nat
  handshakes :: "(window \<times> wire \<times> string) list"
  failures :: "string list"
  escaped :: "jsval list"

definition setTimeout :: "connector \<Rightarrow> callback \<Rightarrow> nat \<Rightarrow> nat \<times> connector" where
  "setTimeout k cb delay =
     (next_timer k, k\<lparr>timers := timers k @ [(next_timer k, cb, delay)], next_timer := Suc (next_timer k)\<rparr>)"

definition clearTimeout :: "connector \<Rightarrow> nat \<Rightarrow> connector" where
  "clearTimeout k t = k\<lparr>timers := filter (\<lambda>e. fst e \<noteq> t) (timers k)\<rparr>"

text \<open>
  The executor of the promise: the listener is registered, the timeout is scheduled after
  30000 ms and the first attempt after 100 ms. \<open>t0\<close> is the first free timer id.
\<close>

definition RPC_Client :: "window \<Rightarrow> string \<Rightarrow> string \<Rightarrow> jsval \<Rightarrow> nat \<Rightarrow> connector" where
  "RPC_Client tw iface to stack t0 =
     (let k = \<lparr>k_targetWindow = tw, k_interfaceName = iface, k_targetOrigin = to,
                k_trace = stack, connected = False, subscribed = True, promise = Connecting,
                connectTimer = t0, timeoutTimer = t0, timers = [], next_timer = t0,
                handshakes = [], failures = [], escaped = []\<rparr>;
          (t, k) = setTimeout k TimeoutCb 30000;
          k = k\<lparr>timeoutTimer := t\<rparr>;
          (t, k) = setTimeout k TryToConnect 100
      in k\<lparr>connectTimer := t\<rparr>)"

text \<open>\<^verbatim>\<open>resolve\<close> and \<^verbatim>\<open>reject\<close> of the promise: the first one wins.\<close>

definition settle_connection :: "connector \<Rightarrow> connection \<Rightarrow> connector" where
  "settle_connection k r = (case promise k of Connecting \<Rightarrow> k\<lparr>promise := r\<rparr> | _ \<Rightarrow> k)"

text \<open>The callback of the timeout timer.\<close>

definition on_timeout :: "connector \<Rightarrow> connector" where
  "on_timeout k =
     clearTimeout
       (settle_connection k (Failed (JError ''Error'' ''Connection timeout'' (k_trace k) JUndefined)))
       (connectTimer k)"

text \<open>
  \<^verbatim>\<open>tryToConnect\<close>. Whether \<^verbatim>\<open>postMessage\<close> throws is the channel's choice: \<open>thrown\<close>
  is what it throws, if it does; the attempt is logged then, and the next one is scheduled
  all the same.
\<close>

definition handshake :: "connector \<Rightarrow> window \<times> wire \<times> string" where
  "handshake k =
     (k_targetWindow k,
      \<lparr>command = JStr ''getRpcInterface'', interfaceName = JStr (k_interfaceName k), args = None,
       msg_id = JNum 0, status = JUndefined, result = JUndefined\<rparr>,
      k_targetOrigin k)"

definition tryToConnect :: "connector \<Rightarrow> jsval option \<Rightarrow> connector" where
  "tryToConnect k thrown =
     (if connected k then clearTimeout k (timeoutTimer k)
      else (let k1 = (case thrown of
                        None \<Rightarrow> k\<lparr>handshakes := handshakes k @ [handshake k]\<rparr>
                      | Some e \<Rightarrow> k\<lparr>failures := failures k @ [''postMessage failed:'' @ to_string e]\<rparr>);
                (t, k2) = setTimeout k1 TryToConnect 1000
            in k2\<lparr>connectTimer := t\<rparr>))"

text \<open>The filter of \<^verbatim>\<open>interfaceListener\<close>, for a message that has data.\<close>

definition handshake_reply :: "connector \<Rightarrow> message \<Rightarrow> wire \<Rightarrow> bool" where
  "handshake_reply k m d =
     (\<not> (source m \<noteq> k_targetWindow k
         \<or> status d \<noteq> JStr ''OK''
         \<or> interfaceName d \<noteq> JStr (k_interfaceName k)
         \<or> (k_targetOrigin k \<noteq> ''*'' \<and> origin m \<noteq> k_targetOrigin k)))"

text \<open>
  \<^verbatim>\<open>interfaceListener\<close>: on the first reply that passes, the listener is removed,
  \<^verbatim>\<open>connected\<close> is set and the promise is resolved with a new proxy; building the proxy
  throws when the result of the reply cannot be iterated.
\<close>

definition interfaceListener :: "connector \<Rightarrow> message \<Rightarrow> connector" where
  "interfaceListener k m =
     (if source m \<noteq> k_targetWindow k then k
      else (case data m of
              None \<Rightarrow> k\<lparr>escaped := escaped k @ [type_error (k_trace k)]\<rparr>
            | Some d \<Rightarrow>
                if \<not> handshake_reply k m d then k
                else (let k1 = k\<lparr>subscribed := False, connected := True\<rparr>
                      in case Client_new (k_targetWindow k) (k_targetOrigin k) (k_interfaceName k)
                                (result d) (k_trace k) of
                           Inl e \<Rightarrow> k1\<lparr>escaped := escaped k1 @ [e]\<rparr>
                         | Inr c \<Rightarrow> settle_connection k1 (Established c))))"

text \<open>
  What the host does with a connector: it runs the callback of a timer (only a timer that
  is still scheduled can run, and it is no longer scheduled afterwards), or it delivers a
  message event (to the listener, while it is registered).
\<close>

datatype connector_event = Fire nat "jsval option" | Deliver message

fun connector_step :: "connector \<Rightarrow> connector_event \<Rightarrow> connector" where
  "connector_step k (Fire t thrown) =
     (case find (\<lambda>e. fst e = t) (timers k) of
        None \<Rightarrow> k
      | Some (_, TimeoutCb, _) \<Rightarrow> on_timeout (clearTimeout k t)
      | Some (_, TryToConnect, _) \<Rightarrow> tryToConnect (clearTimeout k t) thrown)"
| "connector_step k (Deliver m) = (if subscribed k then interfaceListener k m else k)"

definition connector_run :: "connector \<Rightarrow> connector_event list \<Rightarrow> connector" where
  "connector_run k evs = foldl connector_step k evs"

text \<open>A delivered message that passes the filter of the listener.\<close>

fun matching_reply :: "connector \<Rightarrow> connector_event \<Rightarrow> bool" where
  "matching_reply k (Deliver m) = (case data m of None \<Rightarrow> False | Some d \<Rightarrow> handshake_reply k m d)"
| "matching_reply k (Fire t thrown) = False"

section \<open>A proxy and a dispatcher on one channel\<close>

text \<open>
  An endpoint is a window and its origin. A message posted to a window with a target origin
  arrives there when the target origin is \<^verbatim>\<open>*\<close> or the origin of that window; the event
  carries the window and the origin of the sender and an equal copy of the data.
\<close>

type_synonym endpoint = "window \<times> string"

definition arrives :: "endpoint \<Rightarrow> endpoint \<Rightarrow> window \<times> wire \<times> string \<Rightarrow> message option" where
  "arrives sender receiver p =
     (case p of
        (w, d, t) \<Rightarrow>
          if w = fst receiver \<and> (t = ''*'' \<or> t = snd receiver)
          then Some \<lparr>source = fst sender, origin = snd sender, data = Some d\<rparr>
          else None)"

fun post_of :: "effect \<Rightarrow> (window \<times> wire \<times> string) option" where
  "post_of (Posted w d t) = Some (w, d, t)"
| "post_of e = None"

text \<open>
  One event at the proxy of endpoint \<open>C\<close>, with the dispatcher \<open>s\<close> listening at endpoint
  \<open>S\<close>: the requests the proxy posts during the event arrive at the dispatcher, and the
  replies the dispatcher posts arrive at the proxy.
\<close>

definition round_trip :: "server \<Rightarrow> endpoint \<Rightarrow> client \<Rightarrow> endpoint \<Rightarrow> client_event \<Rightarrow> client" where
  "round_trip s S c C ev =
     (let c1 = client_step c ev;
          requests = List.map_filter (arrives C S) (drop (length (posted c)) (posted c1));
          replies = List.map_filter (arrives S C)
                      (concat (map (\<lambda>m. List.map_filter post_of (fst (server_receive s m))) requests))
      in client_run c1 (map Receive replies))"

text \<open>
  The proxy \<open>c\<close> is connected to the dispatcher \<open>s\<close> at endpoint \<open>S\<close>: it targets that
  window, under the name of the dispatcher, expects any origin or that of \<open>S\<close>, still
  listens, and has the stubs of the whitelist the handshake returned, none of which is a
  member of the proxy itself.
\<close>

definition connected_to :: "client \<Rightarrow> server \<Rightarrow> endpoint \<Rightarrow> bool" where
  "connected_to c s S =
     (targetWindow c = fst S \<and> proxyInterface c = srv_name s
      \<and> (targetOrigin c = ''*'' \<or> targetOrigin c = snd S)
      \<and> listening c \<and> stubs c = rpcInterface s
      \<and> set (stubs c) \<inter> set proxy_members = {})"

text \<open>The arguments a method receives for the arguments \<open>as\<close> of a call from endpoint \<open>C\<close>.\<close>

definition received_args :: "server \<Rightarrow> endpoint \<Rightarrow> string \<Rightarrow> jsval list \<Rightarrow> call_arg list" where
  "received_args s C functionName as =
     (if useAccessControl s \<and> functionName \<noteq> ''getRpcInterface''
      then Identity (fst C) (snd C) # map Plain as
      else map Plain as)"

section \<open>Invariants of the proxy and of the connector\<close>

text \<open>
  The table of a proxy is in order when every entry points to a promise that exists and is
  still pending, and no two ids share a promise.
\<close>

definition table_ok :: "client \<Rightarrow> bool" where
  "table_ok c =
     ((\<forall>n h. waiting c n = Some h \<longrightarrow> h < length (promises c) \<and> promises c ! h = Pending)
      \<and> (\<forall>n n' h. waiting c n = Some h \<and> waiting c n' = Some h \<longrightarrow> n = n'))"

text \<open>A pending promise that no entry of the table points to.\<close>

definition orphan :: "client \<Rightarrow> nat \<Rightarrow> bool" where
  "orphan c h = (h < length (promises c) \<and> promises c ! h = Pending \<and> (\<forall>n. waiting c n \<noteq> Some h))"

text \<open>
  A reply settles a call when its status is OK, or error with a result that can be taken
  apart; \<open>settlement\<close> is the state it leaves the promise in.
\<close>

definition settles :: "wire \<Rightarrow> bool" where
  "settles d = (status d = JStr ''OK''
      \<or> (status d = JStr ''error'' \<and> result d \<noteq> JUndefined \<and> result d \<noteq> JNull))"

definition settlement :: "wire \<Rightarrow> pstate" where
  "settlement d =
     (if status d = JStr ''OK'' then Fulfilled (result d)
      else Rejected (new_Error
             (case get_prop (result d) ''message'' of None \<Rightarrow> JUndefined | Some v \<Rightarrow> v)
             (case get_prop (result d) ''stack'' of None \<Rightarrow> JUndefined | Some v \<Rightarrow> v)
             (case get_prop (result d) ''code'' of None \<Rightarrow> JUndefined | Some v \<Rightarrow> v)))"

text \<open>The id of a reply as a key of the table, and a reply that passes the filter of the
  proxy, settles, and has an entry in the table.\<close>

definition reply_key :: "message \<Rightarrow> number option" where
  "reply_key r = (case data r of None \<Rightarrow> None | Some d \<Rightarrow> (case msg_id d of JNum n \<Rightarrow> Some n | _ \<Rightarrow> None))"

definition matched :: "client \<Rightarrow> message \<Rightarrow> bool" where
  "matched c r = (\<exists>d n. data r = Some d \<and> passes_filter c r d \<and> msg_id d = JNum n
      \<and> waiting c n \<noteq> None \<and> settles d)"

definition good :: "client \<Rightarrow> message list \<Rightarrow> bool" where
  "good c rs = (table_ok c \<and> listening c \<and> distinct (map reply_key rs) \<and> (\<forall>r\<in>set rs. matched c r))"

definition replies :: "message list \<Rightarrow> client_event list" where
  "replies rs = map Receive rs"

text \<open>
  The two phases of a connector that has seen no matching reply: the timeout timer and one
  retry timer are scheduled and the promise is pending; or no timer is left and the promise
  is rejected with the timeout error.
\<close>

definition same_call :: "connector \<Rightarrow> connector \<Rightarrow> bool" where
  "same_call k0 k =
     (k_targetWindow k = k_targetWindow k0 \<and> k_interfaceName k = k_interfaceName k0
      \<and> k_targetOrigin k = k_targetOrigin k0 \<and> k_trace k = k_trace k0
      \<and> timeoutTimer k = timeoutTimer k0)"

definition armed :: "connector \<Rightarrow> connector \<Rightarrow> bool" where
  "armed k0 k =
     (same_call k0 k \<and> \<not> connected k \<and> promise k = Connecting
      \<and> (\<exists>delay. timers k = [(timeoutTimer k, TimeoutCb, 30000), (connectTimer k, TryToConnect, delay)])
      \<and> connectTimer k \<noteq> timeoutTimer k
      \<and> timeoutTimer k < next_timer k \<and> connectTimer k < next_timer k)"

definition given_up :: "connector \<Rightarrow> connector \<Rightarrow> bool" where
  "given_up k0 k =
     (same_call k0 k \<and> timers k = []
      \<and> promise k = Failed (JError ''Error'' ''Connection timeout'' (k_trace k0) JUndefined))"

section \<open>An example service\<close>

text \<open>
  A class \<^verbatim>\<open>Demo\<close> with five methods: \<^verbatim>\<open>ping\<close> returns \<^verbatim>\<open>"pong"\<close>,
  \<^verbatim>\<open>whoami\<close> returns the origin of the caller when it is given one, \<^verbatim>\<open>fail\<close> throws
  an error with the message \<^verbatim>\<open>boom\<close>, \<^verbatim>\<open>blank\<close> throws \<^verbatim>\<open>new Error()\<close>, whose
  message is empty, and \<^verbatim>\<open>later\<close> returns a promise that is fulfilled with 42.
\<close>

definition whoami :: "call_arg list \<Rightarrow> outcome" where
  "whoami as = (case as of Identity w orig # rest \<Rightarrow> Returns (JStr orig) | _ \<Rightarrow> Returns JUndefined)"

definition demo_methods :: "string \<Rightarrow> (call_arg list \<Rightarrow> outcome) option" where
  "demo_methods n =
     (if n = ''ping'' then Some (\<lambda>as. Returns (JStr ''pong''))
      else if n = ''whoami'' then Some whoami
      else if n = ''fail'' then Some (\<lambda>as. Throws (JError ''Error'' ''boom'' (JStr ''at fail'') (JNum 7)))
      else if n = ''blank'' then Some (\<lambda>as. Throws (JError ''Error'' [] (JStr ''at blank'') JUndefined))
      else if n = ''later'' then Some (\<lambda>as. Promised (Fulfils (JNum 42)))
      else None)"

definition Demo :: service where
  "Demo = \<lparr>class_name = ''Demo'', userFunctions = [''ping'', ''whoami'', ''fail'', ''blank'', ''later''],
           methods = demo_methods, connect_hook = Absent, engine_stack = JStr ''at Server''\<rparr>"

text \<open>A request for the interface \<open>iface\<close> from window 1 of origin \<^verbatim>\<open>https://app\<close>.\<close>

definition request :: "string \<Rightarrow> string \<Rightarrow> jsval list \<Rightarrow> number \<Rightarrow> message" where
  "request iface cmd as n =
     \<lparr>source = 1, origin = ''https://app'',
      data = Some \<lparr>command = JStr cmd, interfaceName = JStr iface, args = Some as,
                   msg_id = JNum n, status = JUndefined, result = JUndefined\<rparr>\<rparr>"

text \<open>A reply of the interface \<^verbatim>\<open>Demo\<close> from window 2, with its origin, id, status and
  result.\<close>

definition reply :: "string \<Rightarrow> number \<Rightarrow> jsval \<Rightarrow> jsval \<Rightarrow> message" where
  "reply orig n st res =
     \<lparr>source = 2, origin = orig,
      data = Some \<lparr>command = JUndefined, interfaceName = JStr ''Demo'', args = None,
                   msg_id = JNum n, status = st, result = res\<rparr>\<rparr>"

text \<open>The request \<^verbatim>\<open>_invoke\<close> posts, and the reply \<^verbatim>\<open>_replyTo\<close> posts for the id
  \<open>rid\<close>.\<close>

definition request_wire :: "client \<Rightarrow> string \<Rightarrow> jsval list \<Rightarrow> number \<Rightarrow> wire" where
  "request_wire c cmd as rid =
     \<lparr>command = JStr cmd, interfaceName = JStr (proxyInterface c), args = Some as,
      msg_id = JNum rid, status = JUndefined, result = JUndefined\<rparr>"

definition reply_wire :: "server \<Rightarrow> number \<Rightarrow> string \<Rightarrow> jsval \<Rightarrow> wire" where
  "reply_wire s rid st res =
     \<lparr>command = JUndefined, interfaceName = JStr (srv_name s), args = None,
      msg_id = JNum rid, status = JStr st, result = res\<rparr>"

text \<open>
  The proxy that the handshake with a dispatcher of \<^verbatim>\<open>Demo\<close> in window 2 gives, before
  its first call; \<open>orig\<close> is the origin it expects.
\<close>

definition demo_proxy :: "string \<Rightarrow> client" where
  "demo_proxy orig =
     \<lparr>availableMethods =
        JArr (map JStr [''ping'', ''whoami'', ''fail'', ''blank'', ''later'', ''getRpcInterface'']),
      stubs = [''ping'', ''whoami'', ''fail'', ''blank'', ''later'', ''getRpcInterface''],
      targetWindow = 2, targetOrigin = orig, proxyInterface = ''Demo'', trace = JStr ''at Client'',
      waiting = Map.empty, promises = [], listening = True,
      posted = [], console = [], uncaught = []\<rparr>"

text \<open>Three calls on a new proxy, under the ids 11, 12 and 13, and an error payload.\<close>

definition three_calls :: client where
  "three_calls = client_run (demo_proxy ''*'') [Call ''ping'' [] 11, Call ''fail'' [] 12, Call ''ping'' [] 13]"

definition boom :: jsval where
  "boom = JObj [(''message'', JStr ''boom''), (''stack'', JStr ''at fail''), (''code'', JNum 7)]"

text \<open>
  The first \<open>n\<close> retry timers of a connector whose first timer id is \<open>t0\<close> fire, one
  after the other, and \<^verbatim>\<open>postMessage\<close> never throws. With timers that fire when they
  are due, these are the attempts at 100 ms, 1100 ms, and so on: thirty of them are due
  before the timeout at 30000 ms.
\<close>

definition retries :: "nat \<Rightarrow> nat \<Rightarrow> connector_event list" where
  "retries t0 n = map (\<lambda>t. Fire t None) [Suc t0..<Suc t0 + n]"

section \<open>Properties of the dispatcher\<close>

lemma reply_error_unknown:
  "data m = Some d \<Longrightarrow> reply_error s m (unknown_command s) =
     ([Posted (source m)
         \<lparr>command = JUndefined, interfaceName = JStr (srv_name s), args = None,
          msg_id = msg_id d, status = JStr ''error'',
          result = JObj [(''message'', JStr ''Unknown command''), (''stack'', here s), (''code'', JUndefined)]\<rparr>
         (origin m)], None)"
  by (simp add: reply_error_def unknown_command_def error_payload_def replyTo_def)

lemma no_data_no_reply: "data m = None \<Longrightarrow> fst (server_receive s m) = []"
  by (simp add: server_receive_def reply_error_def replyTo_def error_payload_def type_error_def)

lemmas demo_defs =
  RPC_Server_def Server_rpcInterface_def Demo_def demo_methods_def whoami_def request_def reply_def

text \<open>
  C8. A message whose \<^verbatim>\<open>interfaceName\<close> is not the name of the dispatcher is dropped:
  the handler posts nothing, enters no method of the service, calls no hook, and no
  exception leaves it.
\<close>

theorem other_interface_ignored:
  "data m = Some d \<Longrightarrow> interfaceName d \<noteq> JStr (srv_name s) \<Longrightarrow> server_receive s m = ([], None)"
  by (simp add: server_receive_def)

theorem other_interface_ignored_witness:
  "server_receive (RPC_Server Demo True None) (request ''Other'' ''ping'' [] 5) = ([], None)"
  using other_interface_ignored
    [of "request ''Other'' ''ping'' [] 5" "the (data (request ''Other'' ''ping'' [] 5))"
        "RPC_Server Demo True None"]
  by (simp add: demo_defs)

text \<open>
  C4. A message for the dispatcher whose command is not in the whitelist gets exactly one
  reply: status error, the message \<^verbatim>\<open>Unknown command\<close>, the id of the request, sent to
  the source of the request with its origin as target origin. That reply is all the handler
  does: no method of the service is entered.
\<close>

theorem unknown_command_one_error_reply:
  assumes "data m = Some d" and "interfaceName d = JStr (srv_name s)"
    and "\<not> whitelisted (rpcInterface s) (command d)"
  shows "server_receive s m =
     ([Posted (source m)
         \<lparr>command = JUndefined, interfaceName = JStr (srv_name s), args = None,
          msg_id = msg_id d, status = JStr ''error'',
          result = JObj [(''message'', JStr ''Unknown command''), (''stack'', here s), (''code'', JUndefined)]\<rparr>
         (origin m)], None)"
  using assms by (simp add: server_receive_def reply_error_unknown)

theorem unknown_command_one_error_reply_witness:
  "server_receive (RPC_Server Demo True (Some [''ping''])) (request ''Demo'' ''fail'' [] 5) =
     ([Posted 1
         \<lparr>command = JUndefined, interfaceName = JStr ''Demo'', args = None,
          msg_id = JNum 5, status = JStr ''error'',
          result = JObj [(''message'', JStr ''Unknown command''), (''stack'', JStr ''at Server''),
                         (''code'', JUndefined)]\<rparr>
         ''https://app''], None)"
  using unknown_command_one_error_reply
    [of "request ''Demo'' ''fail'' [] 5" "the (data (request ''Demo'' ''fail'' [] 5))"
        "RPC_Server Demo True (Some [''ping''])"]
  by (simp add: demo_defs whitelisted_def)

text \<open>
  C6. With access control on, a message for the dispatcher with a whitelisted command other
  than the handshake makes the dispatcher apply the method of that name to the identity of
  the caller (the source and the origin of the message) followed by the arguments of the
  message, once, and answer with the outcome of that application; when the instance has no
  such method nothing is applied and the TypeError is answered. The handshake applies
  \<^verbatim>\<open>getRpcInterface\<close> to the arguments of the message alone, and its answer is the one
  \<^verbatim>\<open>getRpcInterface\<close> gives. This is all the handler does in each case.
\<close>

theorem identity_injected:
  assumes "useAccessControl s" and "data m = Some d" and "interfaceName d = JStr (srv_name s)"
    and "command d = JStr c" and "c \<in> set (rpcInterface s)"
  shows "server_receive s m =
     (if c = ''getRpcInterface''
      then (case getRpcInterface s of
              (effs, out) \<Rightarrow>
                (case conclude s m out of
                   (effs', x) \<Rightarrow>
                     (Invoked c (map Plain (case args d of None \<Rightarrow> [] | Some xs \<Rightarrow> xs)) # effs @ effs', x)))
      else (case members s c of
              None \<Rightarrow> reply_error s m (type_error (here s))
            | Some f \<Rightarrow>
                (case conclude s m
                        (f (Identity (source m) (origin m) #
                            map Plain (case args d of None \<Rightarrow> [] | Some xs \<Rightarrow> xs))) of
                   (effs', x) \<Rightarrow>
                     (Invoked c (Identity (source m) (origin m) #
                                 map Plain (case args d of None \<Rightarrow> [] | Some xs \<Rightarrow> xs)) # effs', x))))"
  using assms
  by (simp add: server_receive_def whitelisted_def dispatch_def invoke_def call_args_def conclude_def
      split: prod.splits option.splits)

theorem identity_injected_witness:
  "server_receive (RPC_Server Demo True None) (request ''Demo'' ''whoami'' [JNum 3] 5)
     = ([Invoked ''whoami'' [Identity 1 ''https://app'', Plain (JNum 3)],
         Posted 1 \<lparr>command = JUndefined, interfaceName = JStr ''Demo'', args = None,
                   msg_id = JNum 5, status = JStr ''OK'', result = JStr ''https://app''\<rparr>
           ''https://app''], None)
   \<and> server_receive (RPC_Server Demo True None) (request ''Demo'' ''getRpcInterface'' [JNum 3] 0)
     = ([Invoked ''getRpcInterface'' [Plain (JNum 3)],
         Posted 1 \<lparr>command = JUndefined, interfaceName = JStr ''Demo'', args = None,
                   msg_id = JNum 0, status = JStr ''OK'',
                   result = JArr (map JStr [''ping'', ''whoami'', ''fail'', ''blank'', ''later'',
                                           ''getRpcInterface''])\<rparr>
           ''https://app''], None)"
  using identity_injected
    [of "RPC_Server Demo True None" "request ''Demo'' ''whoami'' [JNum 3] 5"
        "the (data (request ''Demo'' ''whoami'' [JNum 3] 5))" "''whoami''"]
    identity_injected
    [of "RPC_Server Demo True None" "request ''Demo'' ''getRpcInterface'' [JNum 3] 0"
        "the (data (request ''Demo'' ''getRpcInterface'' [JNum 3] 0))" "''getRpcInterface''"]
  by (simp add: demo_defs getRpcInterface_def conclude_def reply_ok_def replyTo_def)

lemma push_all_append: "push_all acc xs = acc @ xs"
  by (induction xs arbitrary: acc) auto

text \<open>
  C7, as the code has it. The whitelist of a dispatcher is the explicit list when one is
  given and the reflected names of the class otherwise, followed in both cases by
  \<^verbatim>\<open>getRpcInterface\<close>, which is appended whether or not the list holds it already.
\<close>

theorem handshake_always_appended:
  "rpcInterface (RPC_Server clazz acl explicit) =
     (case explicit of Some whitelist \<Rightarrow> whitelist | None \<Rightarrow> userFunctions clazz) @ [''getRpcInterface'']"
  by (simp add: RPC_Server_def Server_rpcInterface_def push_all_append split: option.splits)

text \<open>
  C7 as the claim states it fails: an explicit whitelist that names the handshake already
  gets it a second time.
\<close>

theorem handshake_appended_twice:
  "rpcInterface (RPC_Server Demo False (Some [''ping'', ''getRpcInterface''])) =
     [''ping'', ''getRpcInterface'', ''getRpcInterface'']"
  by (simp add: RPC_Server_def Server_rpcInterface_def)

lemma close_listeners: "bound_fns et \<Longrightarrow> listeners (Server_close et s) = listeners et"
  by (auto simp: Server_close_def bind_receive_def removeEventListener_def bound_fns_def
      list_all_iff filter_id_conv)

lemma new_listeners: "bound_fns et \<Longrightarrow> listeners (Server_new et s) = listeners et @ [(next_fn et, s)]"
  by (auto simp: Server_new_def bind_receive_def addEventListener_def bound_fns_def list_all_iff)

lemma new_bound: "bound_fns et \<Longrightarrow> bound_fns (Server_new et s)"
  by (auto simp: Server_new_def bind_receive_def addEventListener_def bound_fns_def list_all_iff)

text \<open>
  C10. \<^verbatim>\<open>close\<close> removes a function it has just bound, which is not a registered one, so
  the listeners stay as they are and every message is handled as before; a dispatcher that
  was constructed and then closed still handles a message as \<^verbatim>\<open>_receive\<close> does.
\<close>

theorem close_keeps_listening:
  assumes "bound_fns et"
  shows "listeners (Server_close et s) = listeners et
     \<and> on_message (Server_close et s) m = on_message et m
     \<and> on_message (Server_close (Server_new et s) s) m = on_message et m @ [server_receive s m]"
  using assms by (simp add: on_message_def close_listeners new_listeners new_bound)

theorem close_keeps_listening_witness:
  "on_message (Server_close (Server_new \<lparr>next_fn = 0, listeners = []\<rparr> (RPC_Server Demo False None))
                 (RPC_Server Demo False None)) (request ''Demo'' ''ping'' [] 5)
     = [([Invoked ''ping'' [],
          Posted 1 \<lparr>command = JUndefined, interfaceName = JStr ''Demo'', args = None,
                    msg_id = JNum 5, status = JStr ''OK'', result = JStr ''pong''\<rparr> ''https://app''],
         None)]"
  using close_keeps_listening
    [of "\<lparr>next_fn = 0, listeners = []\<rparr>" "RPC_Server Demo False None" "request ''Demo'' ''ping'' [] 5"]
  by (simp add: bound_fns_def on_message_def server_receive_def whitelisted_def dispatch_def conclude_def invoke_def
      call_args_def reply_ok_def replyTo_def demo_defs)

section \<open>Properties of the proxy\<close>

lemmas run_defs = client_run_def client_invoke_def client_receive_def passes_filter_def
  waiting_get_def waiting_delete_def answer_def settle_promise_def replies_def

lemma demo_proxy_new:
  "Client_new 2 orig ''Demo''
     (JArr (map JStr [''ping'', ''whoami'', ''fail'', ''blank'', ''later'', ''getRpcInterface'']))
     (JStr ''at Client'') = Inr (demo_proxy orig)"
  by (simp add: Client_new_def demo_proxy_def)

lemma table_ok_new: "Client_new tw to iface names stack = Inr c \<Longrightarrow> table_ok c"
  by (auto simp: Client_new_def table_ok_def split: option.splits)

lemma table_ok_invoke: "table_ok c \<Longrightarrow> table_ok (client_invoke c cmd as rid)"
  unfolding table_ok_def client_invoke_def
  by (auto simp: nth_append less_Suc_eq split: if_splits)

lemma answer_fields:
  "waiting (answer c h d) = waiting c" "length (promises (answer c h d)) = length (promises c)"
  "listening (answer c h d) = listening c" "stubs (answer c h d) = stubs c"
  by (auto simp: answer_def settle_promise_def split: option.splits)

lemma answer_other: "h' \<noteq> h \<Longrightarrow> promises (answer c h d) ! h' = promises c ! h'"
  by (auto simp: answer_def settle_promise_def split: option.splits)

lemma waiting_get_Some: "waiting_get c v = Some h \<Longrightarrow> \<exists>n. v = JNum n \<and> waiting c n = Some h"
  by (auto simp: waiting_get_def split: jsval.splits)

lemma table_ok_receive: "table_ok c \<Longrightarrow> table_ok (client_receive c ev)"
proof -
  assume ok: "table_ok c"
  show ?thesis
  proof (cases "\<exists>d h. source ev = targetWindow c \<and> data ev = Some d \<and> passes_filter c ev d \<and> waiting_get c (msg_id d) = Some h")
    case False
    then show ?thesis using ok
      by (auto simp: client_receive_def table_ok_def split: option.splits)
  next
    case True
    then obtain d h n where d: "source ev = targetWindow c" "data ev = Some d" "passes_filter c ev d"
      and n: "msg_id d = JNum n" "waiting c n = Some h"
      by (auto dest: waiting_get_Some)
    let ?c' = "c\<lparr>waiting := (waiting c)(n := None)\<rparr>"
    have r: "client_receive c ev = answer ?c' h d"
      using d n by (simp add: client_receive_def waiting_get_def waiting_delete_def)
    have "\<And>m k. waiting ?c' m = Some k \<Longrightarrow> k \<noteq> h"
      using ok n unfolding table_ok_def by (auto split: if_splits)
    then show ?thesis
      using ok unfolding r table_ok_def
      by (auto simp: answer_fields answer_other split: if_splits)
  qed
qed

lemma table_ok_step: "table_ok c \<Longrightarrow> table_ok (client_step c e)"
  by (cases e) (auto simp: table_ok_invoke table_ok_receive, simp add: table_ok_def)

lemma table_ok_run: "table_ok c \<Longrightarrow> table_ok (client_run c evs)"
  unfolding client_run_def by (induction evs arbitrary: c) (auto simp: table_ok_step)

lemma orphan_invoke: "orphan c h \<Longrightarrow> orphan (client_invoke c cmd as rid) h"
  unfolding orphan_def client_invoke_def by (auto simp: nth_append)

lemma orphan_receive: "orphan c h \<Longrightarrow> orphan (client_receive c ev) h"
proof -
  assume o: "orphan c h"
  show ?thesis
  proof (cases "\<exists>d h. source ev = targetWindow c \<and> data ev = Some d \<and> passes_filter c ev d \<and> waiting_get c (msg_id d) = Some h")
    case False
    then show ?thesis using o
      by (auto simp: client_receive_def orphan_def split: option.splits)
  next
    case True
    then obtain d h' n where d: "source ev = targetWindow c" "data ev = Some d" "passes_filter c ev d"
      and n: "msg_id d = JNum n" "waiting c n = Some h'"
      by (auto dest: waiting_get_Some)
    let ?c' = "c\<lparr>waiting := (waiting c)(n := None)\<rparr>"
    have r: "client_receive c ev = answer ?c' h' d"
      using d n by (simp add: client_receive_def waiting_get_def waiting_delete_def)
    have "h' \<noteq> h" using o n unfolding orphan_def by auto
    then show ?thesis
      using o unfolding r orphan_def
      by (auto simp: answer_fields answer_other)
  qed
qed

lemma orphan_step: "orphan c h \<Longrightarrow> orphan (client_step c e) h"
  by (cases e) (auto simp: orphan_invoke orphan_receive, simp add: orphan_def)

lemma orphan_run: "orphan c h \<Longrightarrow> orphan (client_run c evs) h"
  unfolding client_run_def by (induction evs arbitrary: c) (auto simp: orphan_step)

lemma get_prop_defined: "v \<noteq> JUndefined \<Longrightarrow> v \<noteq> JNull \<Longrightarrow> \<exists>x. get_prop v k = Some x"
  by (cases v) auto

lemma receive_settles:
  assumes ok: "table_ok c" and d: "data r = Some d" "passes_filter c r d" "msg_id d = JNum n"
    and h: "waiting c n = Some h" and s: "settles d"
  shows "client_receive c r = c\<lparr>waiting := (waiting c)(n := None), promises := (promises c)[h := settlement d]\<rparr>"
proof -
  have src: "source r = targetWindow c" using d by (simp add: passes_filter_def)
  have p: "h < length (promises c)" "promises c ! h = Pending" using ok h by (auto simp: table_ok_def)
  have "status d = JStr ''error'' \<Longrightarrow> status d \<noteq> JStr ''OK'' \<Longrightarrow> \<exists>x. get_prop (result d) ''message'' = Some x"
    using s get_prop_defined by (auto simp: settles_def)
  then show ?thesis
    using d h s src p
    by (auto simp: client_receive_def waiting_get_def waiting_delete_def answer_def settle_promise_def
        settlement_def settles_def)
qed

lemma passes_filter_static:
  "targetWindow c' = targetWindow c \<Longrightarrow> proxyInterface c' = proxyInterface c \<Longrightarrow>
   targetOrigin c' = targetOrigin c \<Longrightarrow> passes_filter c' r d = passes_filter c r d"
  by (simp add: passes_filter_def)

lemma reply_key_Some: "data r = Some d \<Longrightarrow> msg_id d = JNum n \<Longrightarrow> reply_key r = Some n"
  by (simp add: reply_key_def)

lemma good_Cons:
  assumes g: "good c (r # rs)"
  obtains d n h where "data r = Some d" "msg_id d = JNum n" "waiting c n = Some h" "reply_key r = Some n"
    "client_receive c r = c\<lparr>waiting := (waiting c)(n := None), promises := (promises c)[h := settlement d]\<rparr>"
    "good (c\<lparr>waiting := (waiting c)(n := None), promises := (promises c)[h := settlement d]\<rparr>) rs"
    "\<forall>r'\<in>set rs. reply_key r' \<noteq> Some n"
    "h < length (promises c)"
proof -
  from g obtain d n h where d: "data r = Some d" "passes_filter c r d" "msg_id d = JNum n"
    "waiting c n = Some h" "settles d"
    by (auto simp: good_def matched_def)
  have ok: "table_ok c" using g by (simp add: good_def)
  have k: "reply_key r = Some n" using d by (simp add: reply_key_Some)
  let ?c1 = "c\<lparr>waiting := (waiting c)(n := None), promises := (promises c)[h := settlement d]\<rparr>"
  have r: "client_receive c r = ?c1" using receive_settles [OF ok d] .
  have fresh: "\<forall>r'\<in>set rs. reply_key r' \<noteq> Some n"
    using g k by (force simp: good_def)
  have ok1: "table_ok ?c1" using table_ok_receive [OF ok, of r] r by simp
  have "\<forall>r'\<in>set rs. matched ?c1 r'"
  proof
    fix r' assume r': "r' \<in> set rs"
    then have "matched c r'" using g by (simp add: good_def)
    then obtain d' n' where d': "data r' = Some d'" "passes_filter c r' d'" "msg_id d' = JNum n'"
      "waiting c n' \<noteq> None" "settles d'"
      by (auto simp: matched_def)
    have "n' \<noteq> n" using fresh r' d' by (auto simp: reply_key_def)
    then show "matched ?c1 r'" using d' unfolding matched_def
      by (auto simp: passes_filter_def)
  qed
  then have g1: "good ?c1 rs" using g ok1 by (simp add: good_def)
  have "h < length (promises c)" using ok d by (auto simp: table_ok_def)
  then show ?thesis using that d k r g1 fresh by blast
qed

lemma run_Cons: "listening c \<Longrightarrow> client_run c (replies (r # rs)) = client_run (client_receive c r) (replies rs)"
  by (simp add: client_run_def replies_def)

lemma run_waiting:
  "good c rs \<Longrightarrow> waiting (client_run c (replies rs)) n =
     (if Some n \<in> reply_key ` set rs then None else waiting c n)"
proof (induction rs arbitrary: c)
  case Nil
  then show ?case by (simp add: client_run_def replies_def)
next
  case (Cons r rs)
  from Cons.prems obtain d k h where
    r: "reply_key r = Some k"
    "client_receive c r = c\<lparr>waiting := (waiting c)(k := None), promises := (promises c)[h := settlement d]\<rparr>"
    "good (c\<lparr>waiting := (waiting c)(k := None), promises := (promises c)[h := settlement d]\<rparr>) rs"
    by (rule good_Cons)
  have l: "listening c" using Cons.prems by (simp add: good_def)
  show ?case
    unfolding run_Cons [OF l] r(2) Cons.IH [OF r(3)]
    using r(1) by auto
qed

lemma run_unchanged:
  "good c rs \<Longrightarrow> console (client_run c (replies rs)) = console c
     \<and> uncaught (client_run c (replies rs)) = uncaught c
     \<and> posted (client_run c (replies rs)) = posted c
     \<and> length (promises (client_run c (replies rs))) = length (promises c)"
proof (induction rs arbitrary: c)
  case Nil
  then show ?case by (simp add: client_run_def replies_def)
next
  case (Cons r rs)
  from Cons.prems obtain d k h where
    r: "client_receive c r = c\<lparr>waiting := (waiting c)(k := None), promises := (promises c)[h := settlement d]\<rparr>"
    "good (c\<lparr>waiting := (waiting c)(k := None), promises := (promises c)[h := settlement d]\<rparr>) rs"
    by (rule good_Cons)
  have l: "listening c" using Cons.prems by (simp add: good_def)
  show ?case
    unfolding run_Cons [OF l] r(1) using Cons.IH [OF r(2)] by simp
qed

lemma run_others:
  "good c rs \<Longrightarrow> \<forall>r\<in>set rs. \<forall>n. reply_key r = Some n \<longrightarrow> waiting c n \<noteq> Some h \<Longrightarrow>
     promises (client_run c (replies rs)) ! h = promises c ! h"
proof (induction rs arbitrary: c)
  case Nil
  then show ?case by (simp add: client_run_def replies_def)
next
  case (Cons r rs)
  from Cons.prems(1) obtain d k h' where
    r: "reply_key r = Some k" "waiting c k = Some h'"
    "client_receive c r = c\<lparr>waiting := (waiting c)(k := None), promises := (promises c)[h' := settlement d]\<rparr>"
    "good (c\<lparr>waiting := (waiting c)(k := None), promises := (promises c)[h' := settlement d]\<rparr>) rs"
    by (rule good_Cons)
  have l: "listening c" using Cons.prems by (simp add: good_def)
  have ne: "h' \<noteq> h" using Cons.prems(2) r(1,2) by auto
  have "\<forall>r\<in>set rs. \<forall>n. reply_key r = Some n \<longrightarrow>
      waiting (c\<lparr>waiting := (waiting c)(k := None), promises := (promises c)[h' := settlement d]\<rparr>) n \<noteq> Some h"
    using Cons.prems(2) by auto
  from Cons.IH [OF r(4) this] show ?case
    unfolding run_Cons [OF l] r(3) using ne by simp
qed

lemma run_settled:
  "good c rs \<Longrightarrow> r \<in> set rs \<Longrightarrow> data r = Some d \<Longrightarrow> msg_id d = JNum n \<Longrightarrow> waiting c n = Some h \<Longrightarrow>
     promises (client_run c (replies rs)) ! h = settlement d"
proof (induction rs arbitrary: c)
  case Nil
  then show ?case by simp
next
  case (Cons r' rs)
  from Cons.prems(1) obtain d' k h' where
    r: "data r' = Some d'" "msg_id d' = JNum k" "waiting c k = Some h'" "reply_key r' = Some k"
    "client_receive c r' = c\<lparr>waiting := (waiting c)(k := None), promises := (promises c)[h' := settlement d']\<rparr>"
    "good (c\<lparr>waiting := (waiting c)(k := None), promises := (promises c)[h' := settlement d']\<rparr>) rs"
    "\<forall>x\<in>set rs. reply_key x \<noteq> Some k"
    "h' < length (promises c)"
    by (rule good_Cons)
  let ?c1 = "c\<lparr>waiting := (waiting c)(k := None), promises := (promises c)[h' := settlement d']\<rparr>"
  have l: "listening c" using Cons.prems by (simp add: good_def)
  have ok: "table_ok c" using Cons.prems by (simp add: good_def)
  have key: "reply_key r = Some n" using Cons.prems(3,4) by (simp add: reply_key_Some)
  show ?case
  proof (cases "r = r'")
    case True
    then have same: "d' = d" "k = n" "h' = h" using r(1,2,3) Cons.prems(3,4,5) by auto
    have "\<forall>x\<in>set rs. \<forall>m. reply_key x = Some m \<longrightarrow> waiting ?c1 m \<noteq> Some h"
    proof (intro ballI allI impI)
      fix x m assume x: "x \<in> set rs" "reply_key x = Some m"
      then have "m \<noteq> n" using r(7) same by auto
      then show "waiting ?c1 m \<noteq> Some h"
        using ok Cons.prems(5) by (auto simp: table_ok_def)
    qed
    from run_others [OF r(6) this] show ?thesis
      unfolding run_Cons [OF l] r(5) using same r(8) by simp
  next
    case False
    then have in_rs: "r \<in> set rs" using Cons.prems(2) by simp
    then have "n \<noteq> k" using r(7) key by auto
    then have "waiting ?c1 n = Some h" using Cons.prems(5) by simp
    from Cons.IH [OF r(6) in_rs Cons.prems(3,4) this] show ?thesis
      unfolding run_Cons [OF l] r(5) .
  qed
qed

lemma unknown_reply_logged:
  "data ev = Some d \<Longrightarrow> passes_filter c ev d \<Longrightarrow> waiting_get c (msg_id d) = None \<Longrightarrow>
     client_receive c ev = c\<lparr>console := console c @ [d]\<rparr>"
  by (auto simp: client_receive_def passes_filter_def)

lemma run_order:
  assumes g: "good c rs" and g': "good c rs'" and eq: "set rs' = set rs"
  shows "promises (client_run c (replies rs')) = promises (client_run c (replies rs))
     \<and> waiting (client_run c (replies rs')) = waiting (client_run c (replies rs))"
proof
  show "promises (client_run c (replies rs')) = promises (client_run c (replies rs))"
  proof (rule nth_equalityI)
    show "length (promises (client_run c (replies rs'))) = length (promises (client_run c (replies rs)))"
      using run_unchanged [OF g] run_unchanged [OF g'] by simp
  next
    fix h assume "h < length (promises (client_run c (replies rs')))"
    show "promises (client_run c (replies rs')) ! h = promises (client_run c (replies rs)) ! h"
    proof (cases "\<exists>r\<in>set rs. \<exists>n. reply_key r = Some n \<and> waiting c n = Some h")
      case True
      then obtain r n where r: "r \<in> set rs" "reply_key r = Some n" "waiting c n = Some h" by blast
      then have "matched c r" using g by (simp add: good_def)
      then obtain d where d: "data r = Some d" "msg_id d = JNum n"
        using r(2) by (auto simp: matched_def reply_key_def)
      have "promises (client_run c (replies rs)) ! h = settlement d"
        using run_settled [OF g r(1) d r(3)] .
      moreover have "promises (client_run c (replies rs')) ! h = settlement d"
        using run_settled [OF g' _ d r(3)] r(1) eq by simp
      ultimately show ?thesis by simp
    next
      case False
      then have a: "\<forall>r\<in>set rs. \<forall>n. reply_key r = Some n \<longrightarrow> waiting c n \<noteq> Some h" by blast
      then have b: "\<forall>r\<in>set rs'. \<forall>n. reply_key r = Some n \<longrightarrow> waiting c n \<noteq> Some h" using eq by simp
      show ?thesis using run_others [OF g a] run_others [OF g' b] by simp
    qed
  qed
next
  show "waiting (client_run c (replies rs')) = waiting (client_run c (replies rs))"
    by (rule ext) (simp add: run_waiting [OF g] run_waiting [OF g'] eq)
qed

lemma three_calls_eval:
  "three_calls = (demo_proxy ''*'')
     \<lparr>promises := [Pending, Pending, Pending],
      waiting := [11 \<mapsto> 0, 12 \<mapsto> Suc 0, 13 \<mapsto> Suc (Suc 0)],
      posted := [(2, request_wire (demo_proxy ''*'') ''ping'' [] 11, ''*''),
                 (2, request_wire (demo_proxy ''*'') ''fail'' [] 12, ''*''),
                 (2, request_wire (demo_proxy ''*'') ''ping'' [] 13, ''*'')]\<rparr>"
  by (simp add: three_calls_def run_defs demo_proxy_def request_wire_def)

text \<open>
  C2, as the code has it. Take a proxy whose whitelist names none of the members of the
  proxy itself (so that its handler is \<^verbatim>\<open>_receive\<close> and its stubs go through
  \<^verbatim>\<open>_invoke\<close>), in any state it can reach, and replies that arrive
  in any order \<open>rs\<close>, each of which passes the filter, has its own id, finds an entry
  in the table under that id, and has status OK, or status error with a result that is
  neither \<^verbatim>\<open>undefined\<close> nor \<^verbatim>\<open>null\<close>. Then every reply settles the promise
  registered under its id, as its status says, and removes that entry; every other promise
  and every other entry stays as it was; nothing is logged, thrown or posted. The same
  replies in another order \<open>rs'\<close> leave the same promises and the same table. A reply
  that passes the filter of a proxy and finds no entry (as a second reply to a settled call
  does) is logged and changes nothing else.
\<close>

theorem replies_settle_matching_calls:
  assumes new: "Client_new tw to iface names stack = Inr c0"
    and own: "set (stubs c0) \<inter> set proxy_members = {}"
    and c: "c = client_run c0 evs" and l: "listening c"
    and rs: "distinct (map reply_key rs)" "\<forall>r\<in>set rs. matched c r"
    and rs': "distinct (map reply_key rs')" "set rs' = set rs"
  shows "(\<forall>r\<in>set rs. \<forall>d n h. data r = Some d \<and> msg_id d = JNum n \<and> waiting c n = Some h \<longrightarrow>
            promises (client_run c (replies rs)) ! h = settlement d
            \<and> waiting (client_run c (replies rs)) n = None)
     \<and> (\<forall>h. (\<forall>r\<in>set rs. \<forall>n. reply_key r = Some n \<longrightarrow> waiting c n \<noteq> Some h) \<longrightarrow>
            promises (client_run c (replies rs)) ! h = promises c ! h)
     \<and> (\<forall>n. Some n \<notin> reply_key ` set rs \<longrightarrow> waiting (client_run c (replies rs)) n = waiting c n)
     \<and> console (client_run c (replies rs)) = console c
     \<and> uncaught (client_run c (replies rs)) = uncaught c
     \<and> posted (client_run c (replies rs)) = posted c
     \<and> promises (client_run c (replies rs')) = promises (client_run c (replies rs))
     \<and> waiting (client_run c (replies rs')) = waiting (client_run c (replies rs))
     \<and> (\<forall>x ev d. data ev = Some d \<and> passes_filter x ev d \<and> waiting_get x (msg_id d) = None \<longrightarrow>
            client_receive x ev = x\<lparr>console := console x @ [d]\<rparr>)"
proof -
  have ok: "table_ok c" using new c by (simp add: table_ok_new table_ok_run)
  have g: "good c rs" using ok l rs by (simp add: good_def)
  have g': "good c rs'" using ok l rs rs' by (simp add: good_def)
  have 1: "\<forall>r\<in>set rs. \<forall>d n h. data r = Some d \<and> msg_id d = JNum n \<and> waiting c n = Some h \<longrightarrow>
            promises (client_run c (replies rs)) ! h = settlement d
            \<and> waiting (client_run c (replies rs)) n = None"
  proof (intro ballI allI impI)
    fix r d n h
    assume r: "r \<in> set rs" and d: "data r = Some d \<and> msg_id d = JNum n \<and> waiting c n = Some h"
    then have "reply_key r = Some n" by (simp add: reply_key_def)
    then have "Some n \<in> reply_key ` set rs" using r by force
    then have "waiting (client_run c (replies rs)) n = None" by (simp add: run_waiting [OF g])
    moreover have "promises (client_run c (replies rs)) ! h = settlement d"
      using run_settled [OF g r] d by blast
    ultimately show "promises (client_run c (replies rs)) ! h = settlement d
            \<and> waiting (client_run c (replies rs)) n = None" by simp
  qed
  have 2: "\<forall>h. (\<forall>r\<in>set rs. \<forall>n. reply_key r = Some n \<longrightarrow> waiting c n \<noteq> Some h) \<longrightarrow>
            promises (client_run c (replies rs)) ! h = promises c ! h"
    using run_others [OF g] by blast
  have 3: "\<forall>n. Some n \<notin> reply_key ` set rs \<longrightarrow> waiting (client_run c (replies rs)) n = waiting c n"
    by (simp add: run_waiting [OF g])
  have 4: "\<forall>x ev d. data ev = Some d \<and> passes_filter x ev d \<and> waiting_get x (msg_id d) = None \<longrightarrow>
            client_receive x ev = x\<lparr>console := console x @ [d]\<rparr>"
    using unknown_reply_logged by blast
  show ?thesis
    using 1 2 3 4 run_unchanged [OF g] run_order [OF g g' rs'(2)] by blast
qed

theorem replies_settle_matching_calls_witness:
  "promises (client_run three_calls
      (replies [reply ''https://srv'' 13 (JStr ''OK'') (JStr ''pong''), reply ''https://srv'' 12 (JStr ''error'') boom]))
     ! 2 = Fulfilled (JStr ''pong'')
   \<and> promises (client_run three_calls
      (replies [reply ''https://srv'' 13 (JStr ''OK'') (JStr ''pong''), reply ''https://srv'' 12 (JStr ''error'') boom]))
     ! 1 = Rejected (JError ''Error'' ''boom'' (JStr ''at fail'') (JNum 7))
   \<and> promises (client_run three_calls
      (replies [reply ''https://srv'' 13 (JStr ''OK'') (JStr ''pong''), reply ''https://srv'' 12 (JStr ''error'') boom]))
     ! 0 = Pending
   \<and> promises (client_run three_calls
      (replies [reply ''https://srv'' 12 (JStr ''error'') boom, reply ''https://srv'' 13 (JStr ''OK'') (JStr ''pong'')]))
     = promises (client_run three_calls
      (replies [reply ''https://srv'' 13 (JStr ''OK'') (JStr ''pong''), reply ''https://srv'' 12 (JStr ''error'') boom]))"
proof -
  let ?r1 = "reply ''https://srv'' 13 (JStr ''OK'') (JStr ''pong'')"
  let ?r2 = "reply ''https://srv'' 12 (JStr ''error'') boom"
  have c: "three_calls = client_run (demo_proxy ''*'') [Call ''ping'' [] 11, Call ''fail'' [] 12, Call ''ping'' [] 13]"
    by (simp add: three_calls_def)
  have l: "listening three_calls" by (simp add: three_calls_eval demo_proxy_def)
  have k: "reply_key ?r1 = Some 13" "reply_key ?r2 = Some 12" by (simp_all add: reply_key_def reply_def)
  have d1: "distinct (map reply_key [?r1, ?r2])" using k by simp
  have d2: "distinct (map reply_key [?r2, ?r1])" using k by simp
  have m1: "matched three_calls ?r1"
    by (simp add: matched_def three_calls_eval demo_proxy_def reply_def passes_filter_def settles_def)
  have m2: "matched three_calls ?r2"
    by (simp add: matched_def three_calls_eval demo_proxy_def reply_def passes_filter_def settles_def boom_def)
  have m: "\<forall>r\<in>set [?r1, ?r2]. matched three_calls r" using m1 m2 by simp
  have e: "set [?r2, ?r1] = set [?r1, ?r2]" by auto
  have s1: "settlement (the (data ?r1)) = Fulfilled (JStr ''pong'')"
    by (simp add: settlement_def reply_def)
  have s2: "settlement (the (data ?r2)) = Rejected (JError ''Error'' ''boom'' (JStr ''at fail'') (JNum 7))"
    by (simp add: settlement_def reply_def boom_def new_Error_def)
  have w: "waiting three_calls 13 = Some 2" "waiting three_calls 12 = Some 1" "waiting three_calls 11 = Some 0"
    "promises three_calls ! 0 = Pending"
    by (simp_all add: three_calls_eval)
  have dd: "data ?r1 = Some (the (data ?r1))" "msg_id (the (data ?r1)) = JNum 13"
    "data ?r2 = Some (the (data ?r2))" "msg_id (the (data ?r2)) = JNum 12"
    by (simp_all add: reply_def)
  have own: "set (stubs (demo_proxy ''*'')) \<inter> set proxy_members = {}"
    by (simp add: demo_proxy_def proxy_members_def)
  note t = replies_settle_matching_calls [OF demo_proxy_new own c l d1 m d2 e]
  show ?thesis
    using t k w dd s1 s2 by auto
qed

text \<open>
  C2 as the claim states it fails: a reply with the status \<^verbatim>\<open>true\<close> passes the
  filter and carries the id of the one pending call, and after it the promise of that call
  is still pending, while its entry is gone.
\<close>

theorem odd_status_leaves_call_pending:
  "passes_filter (client_run (demo_proxy ''*'') [Call ''ping'' [] 9])
     (reply ''https://srv'' 9 (JBool True) (JStr ''pong''))
     (the (data (reply ''https://srv'' 9 (JBool True) (JStr ''pong''))))
   \<and> waiting (client_run (demo_proxy ''*'') [Call ''ping'' [] 9]) 9 = Some 0
   \<and> promises (client_run (demo_proxy ''*'') [Call ''ping'' [] 9]) ! 0 = Pending
   \<and> promises (client_receive (client_run (demo_proxy ''*'') [Call ''ping'' [] 9])
        (reply ''https://srv'' 9 (JBool True) (JStr ''pong''))) ! 0 = Pending
   \<and> waiting (client_receive (client_run (demo_proxy ''*'') [Call ''ping'' [] 9])
        (reply ''https://srv'' 9 (JBool True) (JStr ''pong''))) 9 = None"
  by (simp add: run_defs demo_proxy_def reply_def)

text \<open>
  C9. Take a proxy whose handler is \<^verbatim>\<open>_receive\<close> (its whitelist names none of the
  members of the proxy itself). In a state the proxy can reach, a reply that passes the
  filter and finds an entry under its id, with a status that is neither OK nor error,
  removes the entry and does nothing else: no promise changes. The promise of that entry was
  pending, and it stays pending whatever happens to the proxy afterwards.
\<close>

theorem other_status_never_settles:
  assumes new: "Client_new tw to iface names stack = Inr c0"
    and own: "set (stubs c0) \<inter> set proxy_members = {}"
    and c: "c = client_run c0 evs"
    and d: "data ev = Some d" "passes_filter c ev d"
    and h: "waiting_get c (msg_id d) = Some h"
    and st: "status d \<noteq> JStr ''OK''" "status d \<noteq> JStr ''error''"
  shows "client_receive c ev = c\<lparr>waiting := waiting_delete c (msg_id d)\<rparr>
     \<and> waiting_get (client_receive c ev) (msg_id d) = None
     \<and> promises (client_receive c ev) = promises c
     \<and> promises c ! h = Pending
     \<and> (\<forall>evs'. promises (client_run (client_receive c ev) evs') ! h = Pending)"
proof -
  have ok: "table_ok c" using new c by (simp add: table_ok_new table_ok_run)
  obtain n where n: "msg_id d = JNum n" "waiting c n = Some h"
    using h by (auto dest: waiting_get_Some)
  have src: "source ev = targetWindow c" using d by (simp add: passes_filter_def)
  have r: "client_receive c ev = c\<lparr>waiting := waiting_delete c (msg_id d)\<rparr>"
    using d h st src by (simp add: client_receive_def answer_def)
  have o: "orphan (client_receive c ev) h"
    using ok n unfolding r orphan_def table_ok_def
    by (auto simp: waiting_delete_def)
  have "\<forall>evs'. promises (client_run (client_receive c ev) evs') ! h = Pending"
    using orphan_run [OF o] by (simp add: orphan_def)
  moreover have "promises c ! h = Pending" using ok n by (auto simp: table_ok_def)
  moreover have "waiting_get (client_receive c ev) (msg_id d) = None"
    unfolding r using n by (simp add: waiting_get_def waiting_delete_def)
  ultimately show ?thesis using r by simp
qed

theorem other_status_never_settles_witness:
  "waiting_get
     (client_receive (client_run (demo_proxy ''*'') [Call ''ping'' [] 7])
        (reply ''https://srv'' 7 (JStr ''busy'') JUndefined)) (JNum 7) = None
   \<and> promises
       (client_run
          (client_receive (client_run (demo_proxy ''*'') [Call ''ping'' [] 7])
             (reply ''https://srv'' 7 (JStr ''busy'') JUndefined))
          [Receive (reply ''https://srv'' 7 (JStr ''OK'') (JStr ''pong''))]) ! 0 = Pending"
proof -
  let ?c = "client_run (demo_proxy ''*'') [Call ''ping'' [] 7]"
  let ?r = "reply ''https://srv'' 7 (JStr ''busy'') JUndefined"
  have a: "data ?r = Some (the (data ?r))"
    by (simp add: reply_def)
  have b: "passes_filter ?c ?r (the (data ?r))"
    by (simp add: run_defs demo_proxy_def reply_def)
  have i: "msg_id (the (data ?r)) = JNum 7"
    by (simp add: reply_def)
  have c: "waiting_get ?c (msg_id (the (data ?r))) = Some 0"
    unfolding i by (simp add: run_defs demo_proxy_def)
  have d: "status (the (data ?r)) \<noteq> JStr ''OK''" "status (the (data ?r)) \<noteq> JStr ''error''"
    by (simp_all add: reply_def)
  have own: "set (stubs (demo_proxy ''*'')) \<inter> set proxy_members = {}"
    by (simp add: demo_proxy_def proxy_members_def)
  note t = other_status_never_settles [OF demo_proxy_new own refl a b c d]
  from t have 1: "waiting_get (client_receive ?c ?r) (JNum 7) = None"
    unfolding i by (elim conjE)
  from t have 2: "promises (client_run (client_receive ?c ?r)
      [Receive (reply ''https://srv'' 7 (JStr ''OK'') (JStr ''pong''))]) ! 0 = Pending"
    by blast
  show ?thesis using 1 2 by (rule conjI)
qed

section \<open>Properties of the connector\<close>

text \<open>
  C5. A proxy with a target origin other than \<^verbatim>\<open>*\<close> leaves its table and its
  promises alone on a message of another origin, and a message of another origin that has
  data leaves the whole proxy as it was, whatever id it carries. The listener of a connector
  with such a target origin does the same with a handshake reply of another origin.
\<close>

theorem foreign_origin_discarded:
  "(targetOrigin c \<noteq> ''*'' \<and> origin ev \<noteq> targetOrigin c \<longrightarrow>
      waiting (client_receive c ev) = waiting c \<and> promises (client_receive c ev) = promises c
      \<and> (data ev \<noteq> None \<longrightarrow> client_receive c ev = c))
   \<and> (k_targetOrigin k \<noteq> ''*'' \<and> origin ev \<noteq> k_targetOrigin k \<longrightarrow>
      promise (interfaceListener k ev) = promise k \<and> connected (interfaceListener k ev) = connected k
      \<and> subscribed (interfaceListener k ev) = subscribed k
      \<and> (data ev \<noteq> None \<longrightarrow> interfaceListener k ev = k))"
  by (auto simp: client_receive_def passes_filter_def interfaceListener_def handshake_reply_def
      split: option.splits)

theorem foreign_origin_discarded_witness:
  "client_receive (client_run (demo_proxy ''https://x'') [Call ''ping'' [] 7])
       (reply ''https://evil'' 7 (JStr ''OK'') (JStr ''pong''))
     = client_run (demo_proxy ''https://x'') [Call ''ping'' [] 7]
   \<and> waiting (client_run (demo_proxy ''https://x'') [Call ''ping'' [] 7]) 7 = Some 0
   \<and> promises (client_run (demo_proxy ''https://x'') [Call ''ping'' [] 7]) ! 0 = Pending
   \<and> interfaceListener (RPC_Client 2 ''Demo'' ''https://x'' (JStr ''at Client'') 0)
        (reply ''https://evil'' 0 (JStr ''OK'') (JArr [JStr ''ping'']))
     = RPC_Client 2 ''Demo'' ''https://x'' (JStr ''at Client'') 0"
  using foreign_origin_discarded [of "client_run (demo_proxy ''https://x'') [Call ''ping'' [] 7]"
               "reply ''https://evil'' 7 (JStr ''OK'') (JStr ''pong'')"
               "RPC_Client 2 ''Demo'' ''https://x'' (JStr ''at Client'') 0"]
    foreign_origin_discarded [of "client_run (demo_proxy ''https://x'') [Call ''ping'' [] 7]"
               "reply ''https://evil'' 0 (JStr ''OK'') (JArr [JStr ''ping''])"
               "RPC_Client 2 ''Demo'' ''https://x'' (JStr ''at Client'') 0"]
  by (simp add: run_defs demo_proxy_def reply_def RPC_Client_def setTimeout_def)

lemma armed_init: "armed (RPC_Client tw iface to stack t0) (RPC_Client tw iface to stack t0)"
  by (simp add: armed_def same_call_def RPC_Client_def setTimeout_def Let_def)

lemma matching_same: "same_call k0 k \<Longrightarrow> matching_reply k e = matching_reply k0 e"
  by (cases e) (auto simp: same_call_def handshake_reply_def split: option.splits)

lemma deliver_armed:
  assumes "armed k0 k" and "\<not> matching_reply k0 (Deliver m)"
  shows "armed k0 (connector_step k (Deliver m))"
proof -
  have s: "same_call k0 k" using assms(1) by (simp add: armed_def)
  have "\<not> matching_reply k (Deliver m)"
    using assms(2) by (simp add: matching_same [OF s] del: matching_reply.simps)
  then show ?thesis using assms(1)
    by (auto simp: interfaceListener_def armed_def same_call_def split: option.splits)
qed

lemma fire_armed:
  assumes "armed k0 k"
  shows "connector_step k (Fire t x) =
     (if t = timeoutTimer k
      then k\<lparr>timers := [], promise := Failed (JError ''Error'' ''Connection timeout'' (k_trace k) JUndefined)\<rparr>
      else if t = connectTimer k
      then (case x of
              None \<Rightarrow> k\<lparr>handshakes := handshakes k @ [handshake k]\<rparr>
            | Some e \<Rightarrow> k\<lparr>failures := failures k @ [''postMessage failed:'' @ to_string e]\<rparr>)
           \<lparr>timers := [(timeoutTimer k, TimeoutCb, 30000), (next_timer k, TryToConnect, 1000)],
            next_timer := Suc (next_timer k), connectTimer := next_timer k\<rparr>
      else k)"
  using assms
  by (auto simp: armed_def on_timeout_def clearTimeout_def settle_connection_def tryToConnect_def
      setTimeout_def handshake_def split: option.splits)

lemma step_armed:
  assumes "armed k0 k" and "\<not> matching_reply k0 e"
  shows "armed k0 (connector_step k e) \<or> given_up k0 (connector_step k e)"
proof (cases e)
  case (Deliver m)
  then show ?thesis using assms deliver_armed by blast
next
  case (Fire t x)
  have "armed k0 (connector_step k (Fire t x)) \<or> given_up k0 (connector_step k (Fire t x))"
    unfolding fire_armed [OF assms(1)]
    using assms(1) by (auto simp: armed_def given_up_def same_call_def split: option.splits)
  then show ?thesis using Fire by simp
qed

lemma step_given_up:
  assumes "given_up k0 k"
  shows "given_up k0 (connector_step k e) \<and> handshakes (connector_step k e) = handshakes k
     \<and> failures (connector_step k e) = failures k"
  using assms
  by (cases e)
     (auto simp: given_up_def same_call_def interfaceListener_def settle_connection_def Let_def
       split: option.splits sum.splits)

lemma run_given_up:
  "given_up k0 k \<Longrightarrow> given_up k0 (connector_run k evs) \<and> handshakes (connector_run k evs) = handshakes k
     \<and> failures (connector_run k evs) = failures k"
  unfolding connector_run_def
proof (induction evs arbitrary: k)
  case Nil
  then show ?case by simp
next
  case (Cons e evs)
  then show ?case using step_given_up [OF Cons.prems, of e] by simp
qed

lemma run_armed:
  "armed k0 k \<Longrightarrow> \<forall>e\<in>set evs. \<not> matching_reply k0 e \<Longrightarrow>
     armed k0 (connector_run k evs) \<or> given_up k0 (connector_run k evs)"
proof (induction evs arbitrary: k)
  case Nil
  then show ?case by (simp add: connector_run_def)
next
  case (Cons e evs)
  from Cons.prems have "armed k0 (connector_step k e) \<or> given_up k0 (connector_step k e)"
    by (simp add: step_armed)
  then show ?case
  proof
    assume "armed k0 (connector_step k e)"
    then show ?thesis using Cons.IH Cons.prems(2) by (simp add: connector_run_def)
  next
    assume "given_up k0 (connector_step k e)"
    then show ?thesis using run_given_up [of k0 "connector_step k e" evs] by (simp add: connector_run_def)
  qed
qed

lemma timeout_given_up:
  assumes "armed k0 k \<or> given_up k0 k"
  shows "given_up k0 (connector_step k (Fire (timeoutTimer k0) x))"
  using assms
proof
  assume a: "armed k0 k"
  then have "timeoutTimer k = timeoutTimer k0" by (simp add: armed_def same_call_def)
  then show ?thesis unfolding fire_armed [OF a] using a
    by (simp add: armed_def given_up_def same_call_def)
next
  assume "given_up k0 k"
  then show ?thesis using step_given_up by blast
qed

lemma retries_Suc: "retries t0 (Suc n) = retries t0 n @ [Fire (Suc t0 + n) None]"
  by (simp add: retries_def)

lemma run_append: "connector_run k (xs @ ys) = connector_run (connector_run k xs) ys"
  by (simp add: connector_run_def)

lemma retries_run:
  "connector_run (RPC_Client tw iface to stack t0) (retries t0 n) =
     (RPC_Client tw iface to stack t0)
       \<lparr>handshakes := replicate n (handshake (RPC_Client tw iface to stack t0)),
        timers := [(t0, TimeoutCb, 30000), (Suc t0 + n, TryToConnect, if n = 0 then 100 else 1000)],
        next_timer := Suc (Suc t0) + n,
        connectTimer := Suc t0 + n\<rparr>"
proof (induction n)
  case 0
  show ?case
    by (simp add: retries_def connector_run_def RPC_Client_def setTimeout_def Let_def)
next
  case (Suc n)
  show ?case
    unfolding retries_Suc run_append Suc.IH
    by (simp add: connector_run_def RPC_Client_def setTimeout_def clearTimeout_def tryToConnect_def
        handshake_def Let_def replicate_append_same)
qed

text \<open>
  C3. The timeout is the timer the connector schedules after 30000 ms; the code has no
  parameter for it. If no reply that passes the filter of the listener is among the events
  before the callback of that timer runs, then after it the promise is rejected with the
  error \<^verbatim>\<open>Connection timeout\<close>, no timer is scheduled any more, and whatever happens
  afterwards (messages that arrive late, ids of timers that no longer exist) posts no
  handshake, logs no failed attempt, schedules no timer and leaves the promise rejected.
\<close>

theorem timeout_rejects_and_stops:
  assumes quiet: "\<forall>e\<in>set evs. \<not> matching_reply (RPC_Client tw iface to stack t0) e"
    and k1: "k1 = connector_run (RPC_Client tw iface to stack t0) (evs @ [Fire (timeoutTimer (RPC_Client tw iface to stack t0)) x])"
  shows "promise k1 = Failed (JError ''Error'' ''Connection timeout'' stack JUndefined)
     \<and> timers k1 = []
     \<and> (\<forall>evs'. handshakes (connector_run k1 evs') = handshakes k1
           \<and> failures (connector_run k1 evs') = failures k1
           \<and> timers (connector_run k1 evs') = []
           \<and> promise (connector_run k1 evs') = promise k1)"
proof -
  let ?k0 = "RPC_Client tw iface to stack t0"
  have "armed ?k0 (connector_run ?k0 evs) \<or> given_up ?k0 (connector_run ?k0 evs)"
    using run_armed [OF armed_init quiet] .
  then have g: "given_up ?k0 k1"
    unfolding k1 using timeout_given_up by (simp add: connector_run_def)
  have st: "k_trace ?k0 = stack" by (simp add: RPC_Client_def setTimeout_def Let_def)
  have "\<forall>evs'. handshakes (connector_run k1 evs') = handshakes k1
           \<and> failures (connector_run k1 evs') = failures k1
           \<and> timers (connector_run k1 evs') = []
           \<and> promise (connector_run k1 evs') = promise k1"
    using run_given_up [OF g] g by (simp add: given_up_def)
  then show ?thesis using g st by (simp add: given_up_def)
qed

theorem timeout_rejects_and_stops_witness:
  "promise (connector_run (RPC_Client 2 ''Demo'' ''*'' (JStr ''at Client'') 0) (retries 0 30 @ [Fire 0 None]))
     = Failed (JError ''Error'' ''Connection timeout'' (JStr ''at Client'') JUndefined)
   \<and> length (handshakes (connector_run (RPC_Client 2 ''Demo'' ''*'' (JStr ''at Client'') 0)
        (retries 0 30 @ [Fire 0 None]))) = 30
   \<and> handshakes
       (connector_run
          (connector_run (RPC_Client 2 ''Demo'' ''*'' (JStr ''at Client'') 0) (retries 0 30 @ [Fire 0 None]))
          [Fire 31 None, Deliver (reply ''https://srv'' 0 (JStr ''OK'') (JArr [JStr ''ping''])), Fire 32 None])
     = handshakes (connector_run (RPC_Client 2 ''Demo'' ''*'' (JStr ''at Client'') 0)
        (retries 0 30 @ [Fire 0 None]))"
proof -
  let ?k0 = "RPC_Client 2 ''Demo'' ''*'' (JStr ''at Client'') 0"
  let ?k1 = "connector_run ?k0 (retries 0 30 @ [Fire 0 None])"
  have quiet: "\<forall>e\<in>set (retries 0 30). \<not> matching_reply ?k0 e"
    by (auto simp: retries_def)
  have t: "timeoutTimer ?k0 = 0"
    by (simp add: RPC_Client_def setTimeout_def Let_def)
  have k1: "?k1 = connector_run ?k0 (retries 0 30 @ [Fire (timeoutTimer ?k0) None])"
    unfolding t ..
  note c = timeout_rejects_and_stops [OF quiet k1]
  have n: "length (handshakes ?k1) = 30"
    unfolding run_append retries_run
    by (simp add: connector_run_def RPC_Client_def setTimeout_def clearTimeout_def on_timeout_def
        settle_connection_def Let_def)
  from c have 1: "promise ?k1 = Failed (JError ''Error'' ''Connection timeout'' (JStr ''at Client'') JUndefined)"
    by (elim conjE)
  from c have 2: "handshakes (connector_run ?k1
      [Fire 31 None, Deliver (reply ''https://srv'' 0 (JStr ''OK'') (JArr [JStr ''ping''])), Fire 32 None])
      = handshakes ?k1"
    by blast
  show ?thesis using 1 n 2 by (intro conjI)
qed

section \<open>The round trip\<close>

lemmas srv_defs = server_receive_def whitelisted_def dispatch_def conclude_def invoke_def call_args_def
  reply_ok_def reply_error_def error_payload_def replyTo_def getRpcInterface_def

lemma posts_invoke: "List.map_filter post_of (fst (invoke s c as)) = []"
  by (auto simp: invoke_def getRpcInterface_def List.map_filter_def split: option.splits hook.splits)

lemma posts_of_request:
  assumes con: "connected_to c s S" and wl: "fn \<in> set (rpcInterface s)"
  shows "List.map_filter post_of
           (fst (server_receive s \<lparr>source = fst C, origin = snd C, data = Some (request_wire c fn as rid)\<rparr>)) =
     (case snd (invoke s fn (received_args s C fn as)) of
        Returns v \<Rightarrow> [(fst C, reply_wire s rid ''OK'' v, snd C)]
      | Promised (Fulfils v) \<Rightarrow> [(fst C, reply_wire s rid ''OK'' v, snd C)]
      | Promised Forever \<Rightarrow> []
      | Throws e \<Rightarrow> (case error_payload e of None \<Rightarrow> [] | Some p \<Rightarrow> [(fst C, reply_wire s rid ''error'' p, snd C)])
      | Promised (Rejects e) \<Rightarrow> (case error_payload e of None \<Rightarrow> [] | Some p \<Rightarrow> [(fst C, reply_wire s rid ''error'' p, snd C)]))"
proof -
  let ?m = "\<lparr>source = fst C, origin = snd C, data = Some (request_wire c fn as rid)\<rparr>"
  have ca: "call_args s ?m (request_wire c fn as rid) = received_args s C fn as"
    by (simp add: call_args_def received_args_def request_wire_def)
  have sr: "server_receive s ?m = dispatch s ?m (request_wire c fn as rid) fn"
    using con wl by (simp add: server_receive_def connected_to_def request_wire_def whitelisted_def)
  obtain effs out where io: "invoke s fn (received_args s C fn as) = (effs, out)"
    by (cases "invoke s fn (received_args s C fn as)")
  have pe: "List.map_filter post_of effs = []" using posts_invoke [of s fn "received_args s C fn as"] io by simp
  show ?thesis
    unfolding sr dispatch_def conclude_def ca io
    using pe
    by (auto simp: reply_ok_def reply_error_def replyTo_def reply_wire_def request_wire_def
        List.map_filter_def split: outcome.splits settle.splits option.splits)
qed

lemma round_trip_unfold:
  assumes con: "connected_to c s S" and wl: "fn \<in> set (rpcInterface s)"
  shows "round_trip s S c C (Call fn as rid) =
     client_run (client_invoke c fn as rid)
       (map Receive (List.map_filter (arrives S C)
          (List.map_filter post_of
             (fst (server_receive s \<lparr>source = fst C, origin = snd C, data = Some (request_wire c fn as rid)\<rparr>)))))"
  using con wl
  by (simp add: round_trip_def connected_to_def client_invoke_def arrives_def List.map_filter_def
      request_wire_def Let_def)

lemma receive_ok:
  assumes con: "connected_to c s S"
  shows "promises (client_run (client_invoke c fn as rid)
           (map Receive (List.map_filter (arrives S C) [(fst C, reply_wire s rid ''OK'' v, snd C)])))
         ! length (promises c) = Fulfilled v"
  using con
  by (auto simp: connected_to_def client_run_def List.map_filter_def arrives_def client_invoke_def
      client_receive_def passes_filter_def reply_wire_def waiting_get_def waiting_delete_def
      answer_def settle_promise_def)

lemma receive_error:
  assumes con: "connected_to c s S"
  shows "promises (client_run (client_invoke c fn as rid)
           (map Receive (List.map_filter (arrives S C)
              [(fst C, reply_wire s rid ''error'' (JObj [(''message'', m), (''stack'', st), (''code'', cd)]), snd C)])))
         ! length (promises c) = Rejected (new_Error m st cd)"
  using con
  by (auto simp: connected_to_def client_run_def List.map_filter_def arrives_def client_invoke_def
      client_receive_def passes_filter_def reply_wire_def waiting_get_def waiting_delete_def
      answer_def settle_promise_def)

lemma receive_raw:
  assumes con: "connected_to c s S"
  shows "promises (client_run (client_invoke c fn as rid)
           (map Receive (List.map_filter (arrives S C)
              [(fst C, reply_wire s rid ''error'' (JObj [(''message'', e)]), snd C)])))
         ! length (promises c) = Rejected (new_Error e JUndefined JUndefined)"
  using con
  by (auto simp: connected_to_def client_run_def List.map_filter_def arrives_def client_invoke_def
      client_receive_def passes_filter_def reply_wire_def waiting_get_def waiting_delete_def
      answer_def settle_promise_def)

lemma demo_connected:
  "connected_to (demo_proxy ''*'') (RPC_Server Demo acl None) (2, ''https://srv'')"
  by (simp add: connected_to_def demo_proxy_def RPC_Server_def Server_rpcInterface_def Demo_def
      proxy_members_def)

lemma to_string_names: "map (to_string \<circ> JStr) names = names"
  by (induction names) auto

lemma handshake_posts:
  assumes h: "\<forall>x. onConnected s \<noteq> Raises x"
    and g: "''getRpcInterface'' \<in> set (rpcInterface s)"
  shows "List.map_filter post_of
      (fst (server_receive s \<lparr>source = fst C, origin = snd C,
          data = Some \<lparr>command = JStr ''getRpcInterface'', interfaceName = JStr (srv_name s), args = None,
                       msg_id = JNum 0, status = JUndefined, result = JUndefined\<rparr>\<rparr>))
     = [(fst C, reply_wire s 0 ''OK'' (JArr (map JStr (rpcInterface s))), snd C)]"
  using h g
  by (cases "onConnected s")
     (auto simp: srv_defs reply_wire_def List.map_filter_def)

lemma handshake_connects:
  assumes o: "to = ''*'' \<or> to = snd S" and h: "\<forall>x. onConnected s \<noteq> Raises x"
    and g: "''getRpcInterface'' \<in> set (rpcInterface s)"
    and m: "set (rpcInterface s) \<inter> set proxy_members = {}"
    and k1: "k1 = connector_step (RPC_Client (fst S) (srv_name s) to stack t0) (Fire (Suc t0) None)"
    and r: "r = List.map_filter (arrives S C)
              (concat (map (\<lambda>m. List.map_filter post_of (fst (server_receive s m)))
                    (List.map_filter (arrives C S) (handshakes k1))))"
  shows "\<exists>c. promise (connector_run k1 (map Deliver r)) = Established c \<and> connected_to c s S"
proof -
  have hs: "handshakes k1 = [(fst S, \<lparr>command = JStr ''getRpcInterface'', interfaceName = JStr (srv_name s),
       args = None, msg_id = JNum 0, status = JUndefined, result = JUndefined\<rparr>, to)]"
    unfolding k1
    by (simp add: RPC_Client_def setTimeout_def clearTimeout_def tryToConnect_def handshake_def Let_def)
  have rq: "List.map_filter (arrives C S) (handshakes k1) =
      [\<lparr>source = fst C, origin = snd C,
          data = Some \<lparr>command = JStr ''getRpcInterface'', interfaceName = JStr (srv_name s), args = None,
                       msg_id = JNum 0, status = JUndefined, result = JUndefined\<rparr>\<rparr>]"
    unfolding hs using o by (auto simp: List.map_filter_def arrives_def)
  have r': "r = [\<lparr>source = fst S, origin = snd S,
       data = Some (reply_wire s 0 ''OK'' (JArr (map JStr (rpcInterface s))))\<rparr>]"
    unfolding r rq using handshake_posts [OF h g, of C]
    by (simp add: List.map_filter_def arrives_def)
  show ?thesis
    unfolding r' k1 using o m
    by (auto simp: connector_run_def RPC_Client_def setTimeout_def clearTimeout_def tryToConnect_def
        handshake_def Let_def interfaceListener_def handshake_reply_def reply_wire_def Client_new_def
        settle_connection_def connected_to_def to_string_names)
qed

text \<open>
  C1, as the code has it. Let a proxy be connected to a dispatcher and let a whitelisted
  method be called through its stub. If the method of the dispatcher returns the plain value
  \<open>v\<close>, the promise of the call is resolved with \<open>v\<close>. If it throws an error, or returns
  a promise rejected with an error, whose message is not empty, the promise of the call is
  rejected with an error of the same message (and the same stack and code).
\<close>

theorem round_trip_value_and_error:
  assumes con: "connected_to c s S" and wl: "functionName \<in> set (rpcInterface s)"
  shows "(snd (invoke s functionName (received_args s C functionName as)) = Returns v \<longrightarrow>
            promises (round_trip s S c C (Call functionName as rid)) ! length (promises c) = Fulfilled v)
     \<and> ((snd (invoke s functionName (received_args s C functionName as)) = Throws (JError n msg st cd)
          \<or> snd (invoke s functionName (received_args s C functionName as)) = Promised (Rejects (JError n msg st cd)))
         \<and> msg \<noteq> [] \<longrightarrow>
            promises (round_trip s S c C (Call functionName as rid)) ! length (promises c)
              = Rejected (JError ''Error'' msg st cd))"
proof (intro conjI impI)
  assume "snd (invoke s functionName (received_args s C functionName as)) = Returns v"
  then show "promises (round_trip s S c C (Call functionName as rid)) ! length (promises c) = Fulfilled v"
    unfolding round_trip_unfold [OF con wl] posts_of_request [OF con wl]
    by (simp only: outcome.case receive_ok [OF con])
next
  assume a: "(snd (invoke s functionName (received_args s C functionName as)) = Throws (JError n msg st cd)
          \<or> snd (invoke s functionName (received_args s C functionName as)) = Promised (Rejects (JError n msg st cd)))
         \<and> msg \<noteq> []"
  then have p: "error_payload (JError n msg st cd) = Some (JObj [(''message'', JStr msg), (''stack'', st), (''code'', cd)])"
    by (simp add: error_payload_def)
  have e: "new_Error (JStr msg) st cd = JError ''Error'' msg st cd"
    by (simp add: new_Error_def)
  from a show "promises (round_trip s S c C (Call functionName as rid)) ! length (promises c)
              = Rejected (JError ''Error'' msg st cd)"
    unfolding round_trip_unfold [OF con wl] posts_of_request [OF con wl]
    by (elim conjE disjE) (simp_all only: outcome.case settle.case p option.case receive_error [OF con] e)
qed

theorem round_trip_value_and_error_witness:
  "promises (round_trip (RPC_Server Demo True None) (2, ''https://srv'') (demo_proxy ''*'')
       (1, ''https://app'') (Call ''ping'' [] 7)) ! 0 = Fulfilled (JStr ''pong'')
   \<and> promises (round_trip (RPC_Server Demo True None) (2, ''https://srv'') (demo_proxy ''*'')
       (1, ''https://app'') (Call ''fail'' [] 8)) ! 0
      = Rejected (JError ''Error'' ''boom'' (JStr ''at fail'') (JNum 7))"
proof -
  let ?s = "RPC_Server Demo True None"
  have wl: "''ping'' \<in> set (rpcInterface ?s)" "''fail'' \<in> set (rpcInterface ?s)"
    by (simp_all add: RPC_Server_def Server_rpcInterface_def Demo_def)
  have p: "snd (invoke ?s ''ping'' (received_args ?s (1, ''https://app'') ''ping'' [])) = Returns (JStr ''pong'')"
    by (simp add: invoke_def received_args_def demo_defs)
  have f: "snd (invoke ?s ''fail'' (received_args ?s (1, ''https://app'') ''fail'' []))
      = Throws (JError ''Error'' ''boom'' (JStr ''at fail'') (JNum 7))"
    by (simp add: invoke_def received_args_def demo_defs)
  have l: "length (promises (demo_proxy ''*'')) = 0" by (simp add: demo_proxy_def)
  show ?thesis
    using round_trip_value_and_error [OF demo_connected wl(1), where C = "(1, ''https://app'')" and as = "[]"
                and v = "JStr ''pong''" and rid = 7]
      round_trip_value_and_error [OF demo_connected wl(2), where C = "(1, ''https://app'')" and as = "[]" and n = "''Error''"
                and msg = "''boom''" and st = "JStr ''at fail''" and cd = "JNum 7" and rid = 8]
      p f l
    by simp
qed

text \<open>
  C1 as the claim states it fails: the method \<^verbatim>\<open>blank\<close> throws an error whose
  message is empty; the dispatcher then sends the error itself in place of its message, and
  the promise of the call is rejected with an error whose message is \<^verbatim>\<open>Error\<close>.
\<close>

theorem empty_message_not_propagated:
  "connected_to (demo_proxy ''*'') (RPC_Server Demo False None) (2, ''https://srv'')
   \<and> ''blank'' \<in> set (rpcInterface (RPC_Server Demo False None))
   \<and> snd (invoke (RPC_Server Demo False None) ''blank''
           (received_args (RPC_Server Demo False None) (1, ''https://app'') ''blank'' []))
      = Throws (JError ''Error'' [] (JStr ''at blank'') JUndefined)
   \<and> promises (round_trip (RPC_Server Demo False None) (2, ''https://srv'') (demo_proxy ''*'')
       (1, ''https://app'') (Call ''blank'' [] 7)) ! 0
      = Rejected (JError ''Error'' ''Error'' JUndefined JUndefined)"
  by (simp add: round_trip_def arrives_def List.map_filter_def run_defs srv_defs received_args_def
      connected_to_def proxy_members_def demo_defs demo_proxy_def new_Error_def Let_def)

end
